theory Spec2Isabelle
  imports Complex_Main "HOL-Library.Word"
begin

section \<open>Errors\<close>

text \<open>
  The exceptions the tutorial code can raise, as values. A fallible function returns
  \<open>py_error + 'a\<close>, with \<open>Inl\<close> for the exception. A numpy float divided by zero
  raises nothing: the result is inf or nan, with a warning. The reals have neither, so
  that outcome is the value \<open>NonFinite\<close>.
\<close>

datatype py_error =
  AttributeError | IndexError | ValueError | RuntimeError | ZeroDivisionError | NameError
  | NonFinite

section \<open>The synops tutorial: class SNN\<close>

text \<open>
  \<^verbatim>\<open>
  class SNN(nn.Sequential):
      def __init__(self, batch_size):
          super().__init__(sl.FlattenTime(), nn.Conv2d(1, 16, 5, bias=False), ...)

      @property
      def spiking_layers(self):
          return [layer for layer in self.net.children() if isinstance(layer, sl.StatefulLayer)]

      def reset_states(self):
          for layer in self.spiking_layers:
              layer.reset_states()
  \<close>
  A module is a layer; a container holds its submodules in an ordered dictionary keyed by
  name. The stateful (spiking) layer carries its membrane potentials.
\<close>

datatype layer =
    FlattenTime
  | Conv2d nat nat nat
  | IAFSqueeze int "real list"
  | AvgPool2d nat
  | Flatten
  | Linear nat nat
  | UnflattenTime int
  | Sequential "(string \<times> layer) list"

fun children :: "layer \<Rightarrow> layer list" where
  "children (Sequential ms) = map snd ms"
| "children _ = []"

text \<open>\<open>isinstance(layer, sl.StatefulLayer)\<close>: of the layers used, only IAFSqueeze is stateful.\<close>

fun is_stateful :: "layer \<Rightarrow> bool" where
  "is_stateful (IAFSqueeze _ _) = True"
| "is_stateful _ = False"

text \<open>
  Attribute lookup \<open>self.name\<close> for a name that is neither a class attribute nor in the
  instance dictionary ends in \<open>nn.Module.__getattr__\<close>, which looks the name up among the
  registered parameters, buffers and submodules and raises AttributeError otherwise. The
  layers here are built with \<open>bias=False\<close> and a container registers no parameter or
  buffer of its own, so the lookup is in the submodules.
\<close>

fun getattr :: "layer \<Rightarrow> string \<Rightarrow> py_error + layer" where
  "getattr (Sequential ms) name =
     (case map_of ms name of Some l \<Rightarrow> Inr l | None \<Rightarrow> Inl AttributeError)"
| "getattr _ name = Inl AttributeError"

text \<open>\<open>str(idx)\<close> for a natural number: its decimal digits.\<close>

definition digit_char :: "nat \<Rightarrow> char" where
  "digit_char d = ''0123456789'' ! d"

fun str_nat :: "nat \<Rightarrow> string" where
  "str_nat n = (if n < 10 then [digit_char n] else str_nat (n div 10) @ [digit_char (n mod 10)])"

declare str_nat.simps [simp del]

text \<open>
  \<open>nn.Sequential.__init__(*args)\<close> registers the positional modules under the names
  \<open>str(idx)\<close>, in order.
\<close>

definition Sequential_init :: "layer list \<Rightarrow> layer" where
  "Sequential_init args = Sequential (zip (map str_nat [0..<length args]) args)"

definition SNN_init :: "int \<Rightarrow> layer" where
  "SNN_init batch_size = Sequential_init
     [FlattenTime,
      Conv2d 1 16 5,
      IAFSqueeze batch_size [],
      AvgPool2d 2,
      Conv2d 16 32 5,
      IAFSqueeze batch_size [],
      AvgPool2d 2,
      Conv2d 32 120 4,
      IAFSqueeze batch_size [],
      Flatten,
      Linear 120 10,
      IAFSqueeze batch_size [],
      UnflattenTime batch_size]"

definition spiking_layers :: "layer \<Rightarrow> py_error + layer list" where
  "spiking_layers self =
     (case getattr self ''net'' of
        Inl e \<Rightarrow> Inl e
      | Inr net \<Rightarrow> Inr (filter is_stateful (children net)))"

text \<open>\<open>layer.reset_states()\<close> of a stateful layer sets its state back to zero.\<close>

fun layer_reset_states :: "layer \<Rightarrow> layer" where
  "layer_reset_states (IAFSqueeze b v) = IAFSqueeze b (map (\<lambda>_. 0) v)"
| "layer_reset_states l = l"

definition reset_states :: "layer \<Rightarrow> py_error + layer list" where
  "reset_states self =
     (case spiking_layers self of
        Inl e \<Rightarrow> Inl e
      | Inr ls \<Rightarrow> Inr (map layer_reset_states ls))"

section \<open>Tensors\<close>

text \<open>
  A tensor is its shape together with its entries, nested dimension by dimension: a
  tensor of shape \<open>(2, 3)\<close> is a list of two lists of three scalars. The shape is kept
  beside the entries because a dimension of size 0 leaves no entry to read the later
  sizes from. Floating-point entries are modelled by real numbers.
\<close>

datatype 'a nd = Sc 'a | Nd "'a nd list"

record 'a tensor =
  shape :: "nat list"
  body :: "'a nd"

fun has_shape :: "nat list \<Rightarrow> 'a nd \<Rightarrow> bool" where
  "has_shape [] (Sc x) = True"
| "has_shape (n # ns) (Nd ts) = (length ts = n \<and> list_all (has_shape ns) ts)"
| "has_shape _ _ = False"

definition well_formed :: "'a tensor \<Rightarrow> bool" where
  "well_formed t = has_shape (shape t) (body t)"

text \<open>\<open>a.dim()\<close>: the number of dimensions.\<close>

definition dim_t :: "'a tensor \<Rightarrow> nat" where
  "dim_t t = length (shape t)"

text \<open>
  A dimension (or a Python list index) \<open>d\<close> of an object with \<open>r\<close> dimensions is valid
  from \<open>-r\<close> to \<open>r - 1\<close>; a negative one counts from the end. Anything else raises
  IndexError.
\<close>

definition norm_dim :: "nat \<Rightarrow> int \<Rightarrow> py_error + nat" where
  "norm_dim r d =
     (if - int r \<le> d \<and> d < int r then Inr (nat (if d < 0 then d + int r else d))
      else Inl IndexError)"

text \<open>\<open>a.size(dim)\<close>\<close>

definition size_t :: "'a tensor \<Rightarrow> int \<Rightarrow> py_error + nat" where
  "size_t a d = (case norm_dim (dim_t a) d of Inl e \<Rightarrow> Inl e | Inr k \<Rightarrow> Inr (shape a ! k))"

text \<open>\<open>xs[d] = v\<close> on a Python list.\<close>

definition list_setitem :: "'b list \<Rightarrow> int \<Rightarrow> 'b \<Rightarrow> py_error + 'b list" where
  "list_setitem xs d v =
     (case norm_dim (length xs) d of Inl e \<Rightarrow> Inl e | Inr k \<Rightarrow> Inr (xs[k := v]))"

text \<open>
  \<open>a.repeat(*reps)\<close> tiles the tensor \<open>reps[k]\<close> times along each dimension \<open>k\<close>: the
  entry at index \<open>i\<close> of a dimension of size \<open>m\<close> comes back at \<open>i\<close>, \<open>m + i\<close>,
  \<open>2m + i\<close>, ... It raises when there are fewer repeat counts than dimensions or a
  count is negative; with more counts than dimensions, dimensions of size 1 are added in
  front.
\<close>

fun nd_repeat :: "nat list \<Rightarrow> 'a nd \<Rightarrow> 'a nd" where
  "nd_repeat [] t = t"
| "nd_repeat (r # rs) (Nd ts) = Nd (concat (replicate r (map (nd_repeat rs) ts)))"
| "nd_repeat (r # rs) (Sc x) = Sc x"

definition torch_repeat :: "'a tensor \<Rightarrow> int list \<Rightarrow> py_error + 'a tensor" where
  "torch_repeat a reps =
     (if length reps < dim_t a \<or> (\<exists>r \<in> set reps. r < 0) then Inl RuntimeError
      else let lead = length reps - dim_t a;
               sh = replicate lead 1 @ shape a
           in Inr \<lparr>shape = map2 (\<lambda>s r. s * nat r) sh reps,
                   body = nd_repeat (map nat reps) (((\<lambda>b. Nd [b]) ^^ lead) (body a))\<rparr>)"

text \<open>
  \<open>torch.index_select(a, dim, index)\<close>: along \<open>dim\<close>, position \<open>p\<close> of the result is
  position \<open>index[p]\<close> of \<open>a\<close>. An index outside the dimension raises.
\<close>

fun nd_index_select :: "nat \<Rightarrow> nat list \<Rightarrow> 'a nd \<Rightarrow> 'a nd" where
  "nd_index_select 0 idx (Nd ts) = Nd (map (\<lambda>i. ts ! i) idx)"
| "nd_index_select (Suc k) idx (Nd ts) = Nd (map (nd_index_select k idx) ts)"
| "nd_index_select k idx (Sc x) = Sc x"

definition index_select :: "'a tensor \<Rightarrow> int \<Rightarrow> nat list \<Rightarrow> py_error + 'a tensor" where
  "index_select a d idx =
     (case norm_dim (dim_t a) d of
        Inl e \<Rightarrow> Inl e
      | Inr k \<Rightarrow>
          if \<exists>i \<in> set idx. shape a ! k \<le> i then Inl IndexError
          else Inr \<lparr>shape = (shape a)[k := length idx], body = nd_index_select k idx (body a)\<rparr>)"

text \<open>The slice of a tensor at index \<open>i\<close> of dimension \<open>k\<close> (the dimension is dropped).\<close>

fun nd_slice :: "nat \<Rightarrow> nat \<Rightarrow> 'a nd \<Rightarrow> 'a nd" where
  "nd_slice 0 i (Nd ts) = ts ! i"
| "nd_slice (Suc k) i (Nd ts) = Nd (map (nd_slice k i) ts)"
| "nd_slice k i (Sc x) = Sc x"

section \<open>The LeNet tutorial: tensor\_tile\<close>

text \<open>
  \<^verbatim>\<open>
  def tensor_tile(a, dim, n_tile):
      init_dim = a.size(dim)
      repeat_idx = [1] * a.dim()
      repeat_idx[dim] = n_tile
      a = a.repeat(*(repeat_idx))
      order_index = torch.LongTensor(
          np.concatenate([init_dim * np.arange(n_tile) + i for i in range(init_dim)])
      )
      return torch.index_select(a, dim, order_index)
  \<close>
  \<open>np.arange(n_tile)\<close> is \<open>0, ..., n_tile - 1\<close> (empty when \<open>n_tile \<le> 0\<close>), and
  \<open>np.concatenate\<close> of an empty list of arrays raises ValueError.
\<close>

definition tile_order :: "nat \<Rightarrow> nat \<Rightarrow> nat list" where
  "tile_order m n = concat (map (\<lambda>i. map (\<lambda>j. m * j + i) [0..<n]) [0..<m])"

definition order_index :: "nat \<Rightarrow> int \<Rightarrow> py_error + nat list" where
  "order_index init_dim n_tile =
     (if init_dim = 0 then Inl ValueError else Inr (tile_order init_dim (nat n_tile)))"

definition tensor_tile :: "'a tensor \<Rightarrow> int \<Rightarrow> int \<Rightarrow> py_error + 'a tensor" where
  "tensor_tile a d n_tile =
     (case size_t a d of
        Inl e \<Rightarrow> Inl e
      | Inr init_dim \<Rightarrow>
          (case list_setitem (replicate (dim_t a) 1) d n_tile of
             Inl e \<Rightarrow> Inl e
           | Inr repeat_idx \<Rightarrow>
               (case torch_repeat a repeat_idx of
                  Inl e \<Rightarrow> Inl e
                | Inr a' \<Rightarrow>
                    (case order_index init_dim n_tile of
                       Inl e \<Rightarrow> Inl e
                     | Inr oi \<Rightarrow> index_select a' d oi))))"

section \<open>The LeNet tutorial: count\_correct\<close>

text \<open>
  \<^verbatim>\<open>
  def count_correct(output, target):
      _, predicted = torch.max(output, 1)
      acc = (predicted == target).sum().float()
      return acc.cpu().numpy()
  \<close>
  The output of a network on a batch is a matrix (a tensor of two dimensions): one row
  per sample, one column per class. The target is a vector of class labels.
\<close>

record matrix =
  nrows :: nat
  ncols :: nat
  rows :: "real list list"

definition wf_matrix :: "matrix \<Rightarrow> bool" where
  "wf_matrix m = (length (rows m) = nrows m \<and> list_all (\<lambda>r. length r = ncols m) (rows m))"

text \<open>
  \<open>torch.max(output, 1)\<close> reduces every row to its maximum and the index of it. The
  scan keeps the best value and its index and replaces them only by a strictly greater
  value, so that of several maximal values the first is reported. Reducing a dimension
  of size 0 raises (RuntimeError in torch 1.8, IndexError in later versions).
\<close>

fun max_scan :: "real \<Rightarrow> nat \<Rightarrow> nat \<Rightarrow> real list \<Rightarrow> real \<times> nat" where
  "max_scan v k i [] = (v, k)"
| "max_scan v k i (x # xs) = (if v < x then max_scan x i (Suc i) xs else max_scan v k (Suc i) xs)"

fun max_row :: "real list \<Rightarrow> (real \<times> nat) option" where
  "max_row [] = None"
| "max_row (x # xs) = Some (max_scan x 0 1 xs)"

definition torch_max_dim1 :: "matrix \<Rightarrow> py_error + (real list \<times> nat list)" where
  "torch_max_dim1 m =
     (if ncols m = 0 then Inl RuntimeError
      else case those (map max_row (rows m)) of
             None \<Rightarrow> Inl RuntimeError
           | Some ps \<Rightarrow> Inr (map fst ps, map snd ps))"

text \<open>
  \<open>predicted == target\<close> on two vectors: elementwise when the lengths agree, a vector
  of length 1 is broadcast against the other, anything else raises.
\<close>

definition eq_broadcast :: "int list \<Rightarrow> int list \<Rightarrow> py_error + bool list" where
  "eq_broadcast p t =
     (if length p = length t then Inr (map2 (=) p t)
      else if length p = 1 then Inr (map (\<lambda>y. hd p = y) t)
      else if length t = 1 then Inr (map (\<lambda>x. x = hd t) p)
      else Inl RuntimeError)"

text \<open>\<open>.sum().float()\<close> counts the true entries; the count comes back as a float.\<close>

definition count_correct :: "matrix \<Rightarrow> int list \<Rightarrow> py_error + real" where
  "count_correct output target =
     (case torch_max_dim1 output of
        Inl e \<Rightarrow> Inl e
      | Inr (vals, predicted) \<Rightarrow>
          (case eq_broadcast (map int predicted) target of
             Inl e \<Rightarrow> Inl e
           | Inr eqs \<Rightarrow> Inr (real (length (filter id eqs)))))"

text \<open>
  The specification's words: the smallest column index attaining the maximum of a row.
\<close>

definition first_argmax :: "real list \<Rightarrow> nat" where
  "first_argmax r = (LEAST k. k < length r \<and> r ! k = Max (set r))"

section \<open>The LeNet tutorial: test and snn\_test\<close>

text \<open>
  \<^verbatim>\<open>
  def test(model):
      with torch.no_grad():
          model.eval()
          n_correct = 0
          n_test = 0
          for imgs, labels in test_dataloader:
              imgs, labels = imgs.to(device), labels.to(device)
              outputs = model(imgs)
              n_correct += count_correct(outputs, labels)
              n_test += len(labels)
      ann_accuracy = n_correct / n_test * 100.0
      print("ANN test accuracy: %.2f" % (ann_accuracy))
      return ann_accuracy
  \<close>
  The data loader is the list of its batches; the network is the function from a batch
  of images to the output matrix. With no batch at all the division is Python's
  \<open>0 / 0\<close>; after a batch \<open>n_correct\<close> is a numpy float.
\<close>

fun test_loop ::
  "('i \<Rightarrow> matrix) \<Rightarrow> ('i \<times> int list) list \<Rightarrow> real \<Rightarrow> nat \<Rightarrow> py_error + real \<times> nat" where
  "test_loop model [] n_correct n_test = Inr (n_correct, n_test)"
| "test_loop model ((imgs, labels) # rest) n_correct n_test =
     (case count_correct (model imgs) labels of
        Inl e \<Rightarrow> Inl e
      | Inr k \<Rightarrow> test_loop model rest (n_correct + k) (n_test + length labels))"

definition test :: "('i \<Rightarrow> matrix) \<Rightarrow> ('i \<times> int list) list \<Rightarrow> py_error + real" where
  "test model test_dataloader =
     (case test_loop model test_dataloader 0 0 of
        Inl e \<Rightarrow> Inl e
      | Inr (n_correct, n_test) \<Rightarrow>
          if n_test = 0
          then Inl (if test_dataloader = [] then ZeroDivisionError else NonFinite)
          else Inr (n_correct / real n_test * 100))"

text \<open>The number of labels in a loader: the number of samples it holds.\<close>

fun total_labels :: "('i \<times> int list) list \<Rightarrow> nat" where
  "total_labels [] = 0"
| "total_labels ((imgs, labels) # rest) = length labels + total_labels rest"

text \<open>
  \<^verbatim>\<open>
  def snn_test(model, n_dt=10, n_test=10000):
      # n_dt: the time window of each simulation
      # n_test: number of test images in total
      net = from_model(model, input_image_size, spike_threshold=1.0,
                       bias_rescaling=1.0, min_v_mem=-1.0).to(device)
      with torch.no_grad():
          net.spiking_model.eval()
          n_correct = 0
          for i, (imgs, labels) in enumerate(tqdm(spiking_test_dataloader)):
              if i > n_test:
                  break
              input_frames = tensor_tile(imgs, 0, n_dt).to(device)
              labels = labels.to(device)
              net.reset_states()
              outputs = net.spiking_model(input_frames)
              n_correct += count_correct(outputs.sum(0, keepdim=True), labels)
      snn_accuracy = n_correct / n_test * 100.0
      print("SNN test accuracy: %.2f" % (snn_accuracy))
      return snn_accuracy
  \<close>
  The conversion \<open>from_model\<close> belongs to the library and is a parameter. What it
  returns is a spiking network: a state (the membrane potentials), the reset of the
  state, and the simulation, which maps the state and the input frames to the output
  matrix (one row per time step) and the new state.
\<close>

record 's spiking_net =
  net_state :: 's
  net_reset_states :: "'s \<Rightarrow> 's"
  spiking_model :: "'s \<Rightarrow> real tensor \<Rightarrow> matrix \<times> 's"

text \<open>\<open>outputs.sum(0, keepdim=True)\<close>: the column sums, as a matrix of one row.\<close>

definition sum_dim0_keepdim :: "matrix \<Rightarrow> matrix" where
  "sum_dim0_keepdim m =
     \<lparr>nrows = 1, ncols = ncols m,
      rows = [foldl (map2 (+)) (replicate (ncols m) 0) (rows m)]\<rparr>"

fun snn_loop ::
  "'s spiking_net \<Rightarrow> int \<Rightarrow> int \<Rightarrow> nat \<Rightarrow> (real tensor \<times> int list) list \<Rightarrow> 's \<Rightarrow> real
     \<Rightarrow> py_error + real" where
  "snn_loop net n_dt n_test i [] s n_correct = Inr n_correct"
| "snn_loop net n_dt n_test i ((imgs, labels) # rest) s n_correct =
     (if int i > n_test then Inr n_correct
      else case tensor_tile imgs 0 n_dt of
             Inl e \<Rightarrow> Inl e
           | Inr input_frames \<Rightarrow>
               (case spiking_model net (net_reset_states net s) input_frames of
                  (outputs, s') \<Rightarrow>
                    (case count_correct (sum_dim0_keepdim outputs) labels of
                       Inl e \<Rightarrow> Inl e
                     | Inr k \<Rightarrow> snn_loop net n_dt n_test (Suc i) rest s' (n_correct + k))))"

definition snn_test ::
  "('m \<Rightarrow> 's spiking_net) \<Rightarrow> 'm \<Rightarrow> int \<Rightarrow> int \<Rightarrow> (real tensor \<times> int list) list
     \<Rightarrow> py_error + real" where
  "snn_test from_model model n_dt n_test spiking_test_dataloader =
     (let net = from_model model in
      case snn_loop net n_dt n_test 0 spiking_test_dataloader (net_state net) 0 of
        Inl e \<Rightarrow> Inl e
      | Inr n_correct \<Rightarrow>
          if n_test = 0
          then Inl (if spiking_test_dataloader = [] then ZeroDivisionError else NonFinite)
          else Inr (n_correct / real_of_int n_test * 100))"

text \<open>
  Test inputs: a batch of one blank \<open>28 \<times> 28\<close> image, and a spiking network without
  state that spikes on its first output neuron only, at every time step.
\<close>

definition blank_image :: "real tensor" where
  "blank_image = \<lparr>shape = [1, 1, 28, 28],
                   body = Nd [Nd [Nd (replicate 28 (Nd (replicate 28 (Sc 0))))]]\<rparr>"

definition first_class_net :: "unit spiking_net" where
  "first_class_net =
     \<lparr>net_state = (), net_reset_states = (\<lambda>s. s),
      spiking_model = (\<lambda>s frames.
        (\<lparr>nrows = hd (shape frames), ncols = 2, rows = replicate (hd (shape frames)) [1, 0]\<rparr>, s))\<rparr>"

section \<open>The weight transfer tutorial: the MNIST dataset\<close>

text \<open>
  \<^verbatim>\<open>
  class MNIST(datasets.MNIST):
      def __init__(self, root, train=True, is_spiking=False, time_window=100):
          super().__init__(root=root, train=train, download=True,
                           transform=transforms.ToTensor())
          self.is_spiking = is_spiking
          self.time_window = time_window

      def __getitem__(self, index):
          img, target = self.data[index].unsqueeze(0) / 255, self.targets[index]
          # img is now a tensor of 1x28x28
          if self.is_spiking:
              img = (torch.rand(self.time_window, *img.shape) < img).float()
          return img, target
  \<close>
  The parent class holds the images in \<open>data\<close>, a tensor of bytes of shape
  \<open>(N, 28, 28)\<close>, and the labels in \<open>targets\<close>, a vector of \<open>N\<close> integers. The time
  window is stored as it is given, an integer that nothing checks.
\<close>

record mnist =
  data :: "8 word tensor"
  targets :: "int list"
  is_spiking :: bool
  time_window :: int

text \<open>
  \<open>a[index]\<close> for an integer index: the slice of the first dimension, negative indices
  counting from the end, IndexError outside.
\<close>

definition tensor_getitem :: "'a tensor \<Rightarrow> int \<Rightarrow> py_error + 'a tensor" where
  "tensor_getitem a index =
     (case shape a of
        [] \<Rightarrow> Inl IndexError
      | n # ns \<Rightarrow>
          (case norm_dim n index of
             Inl e \<Rightarrow> Inl e
           | Inr k \<Rightarrow> Inr \<lparr>shape = ns, body = nd_slice 0 k (body a)\<rparr>))"

definition list_getitem :: "'b list \<Rightarrow> int \<Rightarrow> py_error + 'b" where
  "list_getitem xs index =
     (case norm_dim (length xs) index of Inl e \<Rightarrow> Inl e | Inr k \<Rightarrow> Inr (xs ! k))"

text \<open>\<open>a.unsqueeze(0)\<close> puts a dimension of size 1 in front.\<close>

definition unsqueeze0 :: "'a tensor \<Rightarrow> 'a tensor" where
  "unsqueeze0 a = \<lparr>shape = 1 # shape a, body = Nd [body a]\<rparr>"

text \<open>Dividing a tensor of bytes by 255 gives a float tensor: every byte \<open>p\<close> becomes \<open>p / 255\<close>.\<close>

definition gray_level :: "8 word \<Rightarrow> real" where
  "gray_level p = real (unat p) / 255"

definition div_255 :: "8 word tensor \<Rightarrow> real tensor" where
  "div_255 a = \<lparr>shape = shape a, body = map_nd gray_level (body a)\<rparr>"

text \<open>
  \<open>torch.rand(*sizes)\<close> draws from the global generator, uniformly in \<open>[0, 1)\<close>. The
  generator is the sequence of the samples it will give: a draw fills the tensor in
  row-major order with the next samples and leaves the rest of the sequence. A negative
  size raises RuntimeError.
\<close>

type_synonym rng = "nat \<Rightarrow> real"

fun nd_fill :: "nat list \<Rightarrow> (nat \<Rightarrow> 'a) \<Rightarrow> 'a nd" where
  "nd_fill [] f = Sc (f 0)"
| "nd_fill (n # ns) f = Nd (map (\<lambda>i. nd_fill ns (\<lambda>j. f (i * prod_list ns + j))) [0..<n])"

definition torch_rand :: "int list \<Rightarrow> rng \<Rightarrow> py_error + real tensor \<times> rng" where
  "torch_rand sizes g =
     (if \<exists>n \<in> set sizes. n < 0 then Inl RuntimeError
      else let sh = map nat sizes
           in Inr (\<lparr>shape = sh, body = nd_fill sh g\<rparr>, \<lambda>i. g (i + prod_list sh)))"

text \<open>
  \<open>r < img\<close>, where \<open>r\<close> has the shape of \<open>img\<close> with one more dimension in front:
  \<open>img\<close> is broadcast, every slice of \<open>r\<close> is compared with it entry by entry.
\<close>

function (sequential) nd_lt :: "real nd \<Rightarrow> real nd \<Rightarrow> bool nd" where
  "nd_lt (Sc x) (Sc y) = Sc (x < y)"
| "nd_lt (Nd xs) (Nd ys) = Nd (map (\<lambda>(x, y). nd_lt x y) (zip xs ys))"
| "nd_lt _ _ = Nd []"
  by pat_completeness auto
termination
proof (relation "measure (\<lambda>(a, b). size a)")
  show "wf (measure (\<lambda>(a, b). size a))" by simp
next
  fix xs ys :: "real nd list" and z x y
  assume "z \<in> set (zip xs ys)" and "(x, y) = z"
  then have "x \<in> set xs" by (auto dest: set_zip_leftD)
  then have "size x \<le> size_list size xs" by (rule size_list_estimation') simp
  then show "((x, y), (Nd xs, Nd ys)) \<in> measure (\<lambda>(a, b). size a)" by simp
qed

definition lt_lead :: "real tensor \<Rightarrow> real tensor \<Rightarrow> bool tensor" where
  "lt_lead r img =
     \<lparr>shape = shape r,
      body = (case body r of Nd slices \<Rightarrow> Nd (map (\<lambda>s. nd_lt s (body img)) slices) | Sc x \<Rightarrow> Nd [])\<rparr>"

text \<open>\<open>.float()\<close> on a tensor of booleans: 1.0 for true, 0.0 for false.\<close>

definition to_float :: "bool tensor \<Rightarrow> real tensor" where
  "to_float a = \<lparr>shape = shape a, body = map_nd (\<lambda>b. if b then 1 else 0) (body a)\<rparr>"

definition getitem :: "mnist \<Rightarrow> int \<Rightarrow> rng \<Rightarrow> py_error + ((real tensor \<times> int) \<times> rng)" where
  "getitem self index g =
     (case tensor_getitem (data self) index of
        Inl e \<Rightarrow> Inl e
      | Inr d \<Rightarrow>
          (case list_getitem (targets self) index of
             Inl e \<Rightarrow> Inl e
           | Inr target \<Rightarrow>
               (let img = div_255 (unsqueeze0 d) in
                if is_spiking self
                then (case torch_rand (time_window self # map int (shape img)) g of
                        Inl e \<Rightarrow> Inl e
                      | Inr (r, g') \<Rightarrow> Inr ((to_float (lt_lead r img), target), g'))
                else Inr ((img, target), g))))"

text \<open>The dataset as the parent class builds it: \<open>N\<close> images of \<open>28 \<times> 28\<close> bytes, \<open>N\<close> labels.\<close>

definition wf_mnist :: "mnist \<Rightarrow> nat \<Rightarrow> bool" where
  "wf_mnist self N =
     (well_formed (data self) \<and> shape (data self) = [N, 28, 28] \<and> length (targets self) = N)"

text \<open>The entry of a tensor at a full index, if the index is inside.\<close>

fun nd_get :: "nat list \<Rightarrow> 'a nd \<Rightarrow> 'a option" where
  "nd_get [] (Sc x) = Some x"
| "nd_get (i # is) (Nd ts) = (if i < length ts then nd_get is (ts ! i) else None)"
| "nd_get _ _ = None"

text \<open>
  A dataset for tests: one image with the label 7, every row of it 14 pixels of gray
  level 255 followed by 14 pixels of gray level 51.
\<close>

definition two_tone_mnist :: "bool \<Rightarrow> int \<Rightarrow> mnist" where
  "two_tone_mnist spiking T =
     \<lparr>data = \<lparr>shape = [1, 28, 28],
              body = Nd [Nd (replicate 28 (Nd (replicate 14 (Sc 255) @ replicate 14 (Sc 51))))]\<rparr>,
      targets = [7], is_spiking = spiking, time_window = T\<rparr>"

text \<open>A generator for tests: the samples are 1/10 at the even positions, 1/2 at the odd.\<close>

definition alternating_rng :: rng where
  "alternating_rng i = (if even i then 1 / 10 else 1 / 2)"

section \<open>The CI workflow\<close>

text \<open>
  The workflow file, as data: a workflow is a list of jobs, a job a list of steps. A
  step either uses an action or runs shell commands. Expressions of the workflow
  language are kept as the strings they are written as.
\<close>

record step =
  step_name :: "string option"
  uses :: "string option"
  with_args :: "(string \<times> string) list"
  run :: "string list"
  env :: "(string \<times> string) list"

record job =
  job_id :: string
  needs :: "string list"
  runs_on :: string
  fail_fast :: bool
  matrix_axes :: "(string \<times> string list) list"
  steps :: "step list"

record workflow =
  workflow_name :: string
  on_events :: "string list"
  jobs :: "job list"

text \<open>
  \<^verbatim>\<open>
  multitest:
    runs-on: ${{ matrix.os }}
    strategy:
      fail-fast: false
      matrix:
        os: [ubuntu-latest, windows-latest]
        python-version: ["3.7", "3.9",]
        torch-version: ["1.8.0", "1.12.0",]
    steps:
      - uses: actions/checkout@v2
      - name: Set up Python ${{ matrix.python-version }}
        uses: actions/setup-python@v2
        with:
          python-version: ${{ matrix.python-version }}
      - name: Install requirements
        run: |
          pip install torch~=${{ matrix.torch-version }} torchvision
          pip install .
          pip install -r tests/requirements.txt
      - name: Test with pytest
        run: |
          pytest tests
        env:
            CI: true
  \<close>
\<close>

definition install_requirements :: step where
  "install_requirements =
     \<lparr>step_name = Some ''Install requirements'', uses = None, with_args = [],
      run = [''pip install torch~=${{ matrix.torch-version }} torchvision'',
             ''pip install .'',
             ''pip install -r tests/requirements.txt''],
      env = []\<rparr>"

definition test_with_pytest :: step where
  "test_with_pytest =
     \<lparr>step_name = Some ''Test with pytest'', uses = None, with_args = [],
      run = [''pytest tests''], env = [(''CI'', ''true'')]\<rparr>"

definition multitest :: job where
  "multitest =
     \<lparr>job_id = ''multitest'', needs = [], runs_on = ''${{ matrix.os }}'', fail_fast = False,
      matrix_axes =
        [(''os'', [''ubuntu-latest'', ''windows-latest'']),
         (''python-version'', [''3.7'', ''3.9'']),
         (''torch-version'', [''1.8.0'', ''1.12.0''])],
      steps =
        [\<lparr>step_name = None, uses = Some ''actions/checkout@v2'', with_args = [], run = [],
          env = []\<rparr>,
         \<lparr>step_name = Some ''Set up Python ${{ matrix.python-version }}'',
          uses = Some ''actions/setup-python@v2'',
          with_args = [(''python-version'', ''${{ matrix.python-version }}'')], run = [],
          env = []\<rparr>,
         install_requirements,
         test_with_pytest]\<rparr>"

text \<open>
  \<^verbatim>\<open>
  documentation:
    needs: multitest
    runs-on: ubuntu-latest
    steps:
      - uses: actions/checkout@v3
        with:
          fetch-depth: 0
      - name: Setup Python 3.8
        uses: actions/setup-python@v2
        with:
          python-version: 3.8
      - name: Install dependencies
        run: |
          pip install .
          pip install -r docs/requirements.txt
      - name: Build documentation
        run: |
          cd docs && make clean && make html
  \<close>
  A job without a strategy has no matrix, and the default of fail-fast.
\<close>

definition documentation :: job where
  "documentation =
     \<lparr>job_id = ''documentation'', needs = [''multitest''], runs_on = ''ubuntu-latest'',
      fail_fast = True, matrix_axes = [],
      steps =
        [\<lparr>step_name = None, uses = Some ''actions/checkout@v3'',
          with_args = [(''fetch-depth'', ''0'')], run = [], env = []\<rparr>,
         \<lparr>step_name = Some ''Setup Python 3.8'', uses = Some ''actions/setup-python@v2'',
          with_args = [(''python-version'', ''3.8'')], run = [], env = []\<rparr>,
         \<lparr>step_name = Some ''Install dependencies'', uses = None, with_args = [],
          run = [''pip install .'', ''pip install -r docs/requirements.txt''], env = []\<rparr>,
         \<lparr>step_name = Some ''Build documentation'', uses = None, with_args = [],
          run = [''cd docs && make clean && make html''], env = []\<rparr>]\<rparr>"

text \<open>
  \<^verbatim>\<open>
  build-and-publish:
    needs: documentation
    runs-on: ubuntu-latest
    steps:
      - uses: actions/checkout@v3
        with:
          fetch-depth: 0
      - name: Set up Python 3.8
        uses: actions/setup-python@v2
        with:
          python-version: 3.8
      - name: Install build packages
        run: pip install wheel pbr setuptools
      - name: Build a binary wheel and a source tarball
        run: python setup.py sdist bdist_wheel
      - name: Publish distribution package to PyPI
        uses: pypa/gh-action-pypi-publish@master
        with:
          password: ${{ secrets.PYPI_DEPLOYMENT }}
          skip_existing: true
  \<close>
\<close>

definition build_wheel_and_tarball :: step where
  "build_wheel_and_tarball =
     \<lparr>step_name = Some ''Build a binary wheel and a source tarball'', uses = None,
      with_args = [], run = [''python setup.py sdist bdist_wheel''], env = []\<rparr>"

definition publish_to_pypi :: step where
  "publish_to_pypi =
     \<lparr>step_name = Some ''Publish distribution package to PyPI'',
      uses = Some ''pypa/gh-action-pypi-publish@master'',
      with_args = [(''password'', ''${{ secrets.PYPI_DEPLOYMENT }}''), (''skip_existing'', ''true'')],
      run = [], env = []\<rparr>"

definition build_and_publish :: job where
  "build_and_publish =
     \<lparr>job_id = ''build-and-publish'', needs = [''documentation''], runs_on = ''ubuntu-latest'',
      fail_fast = True, matrix_axes = [],
      steps =
        [\<lparr>step_name = None, uses = Some ''actions/checkout@v3'',
          with_args = [(''fetch-depth'', ''0'')], run = [], env = []\<rparr>,
         \<lparr>step_name = Some ''Set up Python 3.8'', uses = Some ''actions/setup-python@v2'',
          with_args = [(''python-version'', ''3.8'')], run = [], env = []\<rparr>,
         \<lparr>step_name = Some ''Install build packages'', uses = None, with_args = [],
          run = [''pip install wheel pbr setuptools''], env = []\<rparr>,
         build_wheel_and_tarball,
         publish_to_pypi]\<rparr>"

definition ci :: workflow where
  "ci = \<lparr>workflow_name = ''CI'', on_events = [''push'', ''pull_request''],
          jobs = [multitest, documentation, build_and_publish]\<rparr>"

subsection \<open>How the runner executes a workflow\<close>

text \<open>
  A matrix stands for one instance of the job per combination of the values of its
  axes; a job without a matrix has the one instance with no assignment.
\<close>

type_synonym assignment = "(string \<times> string) list"

fun expand :: "(string \<times> string list) list \<Rightarrow> assignment list" where
  "expand [] = [[]]"
| "expand ((k, vs) # axes) = concat (map (\<lambda>v. map (\<lambda>a. (k, v) # a) (expand axes)) vs)"

text \<open>
  Whether a step succeeds (its command exits with status 0) is not in the file: it is a
  parameter, by job, instance and position of the step. No step of the file has
  \<open>continue-on-error\<close> or an \<open>if\<close> condition, so an instance runs its steps in order
  and stops at the first that fails; it succeeds when all have succeeded.
\<close>

type_synonym outcome = "string \<Rightarrow> assignment \<Rightarrow> nat \<Rightarrow> bool"

fun run_steps :: "(nat \<Rightarrow> bool) \<Rightarrow> nat \<Rightarrow> step list \<Rightarrow> step list \<times> bool" where
  "run_steps ok i [] = ([], True)"
| "run_steps ok i (s # ss) =
     (if ok i then (case run_steps ok (Suc i) ss of (tr, r) \<Rightarrow> (s # tr, r))
      else ([s], False))"


definition instance_ok :: "outcome \<Rightarrow> job \<Rightarrow> assignment \<Rightarrow> bool" where
  "instance_ok ok j a = snd (run_steps (ok (job_id j) a) 0 (steps j))"

text \<open>
  No job of the file has an \<open>if\<close> condition: a job runs when all the jobs it needs have
  succeeded, and it succeeds when it has run and all its instances have succeeded. The
  fuel bounds the depth of the dependencies; the number of jobs is enough.
\<close>

definition find_job :: "workflow \<Rightarrow> string \<Rightarrow> job option" where
  "find_job flow name = find (\<lambda>j. job_id j = name) (jobs flow)"

fun succeeded :: "nat \<Rightarrow> workflow \<Rightarrow> outcome \<Rightarrow> string \<Rightarrow> bool" where
  "succeeded 0 flow ok name = False"
| "succeeded (Suc n) flow ok name =
     (case find_job flow name of
        None \<Rightarrow> False
      | Some j \<Rightarrow> list_all (succeeded n flow ok) (needs j) \<and>
                  list_all (instance_ok ok j) (expand (matrix_axes j)))"

definition job_succeeded :: "workflow \<Rightarrow> outcome \<Rightarrow> string \<Rightarrow> bool" where
  "job_succeeded flow ok name = succeeded (length (jobs flow)) flow ok name"

definition job_runs :: "workflow \<Rightarrow> outcome \<Rightarrow> string \<Rightarrow> bool" where
  "job_runs flow ok name =
     (case find_job flow name of
        None \<Rightarrow> False
      | Some j \<Rightarrow> list_all (job_succeeded flow ok) (needs j))"

section \<open>The tutorials as sequences of operations\<close>

text \<open>
  A notebook is the list of its code cells, run from top to bottom; a cell is a list of
  statements. What a statement does to the network is its event: defining a model
  (a class or a sequential stack), constructing an instance, the training loop, the
  accuracy evaluation of the network, the call of \<open>from_model\<close> (with the network
  converted and the variable that takes the result), the accuracy evaluation of a
  spiking network, a single run of a spiking network, a plot. A loop is one event.
  Everything else (imports, data loaders, counters, printing) is \<open>Other\<close>.
\<close>

datatype event =
    Define string
  | Construct string
  | Train string
  | EvalANN string
  | Convert string string
  | EvalSNN string
  | Run string
  | Plot string
  | Other string

text \<open>
  A \<open>def\<close> only binds the name of a function; its body runs when the function is
  called, with the parameters bound to the arguments.
\<close>

datatype stmt =
    Step event
  | Def string "string list" "stmt list"
  | Call string "string list"

type_synonym fenv = "string \<rightharpoonup> string list \<times> stmt list"

definition subst :: "(string \<times> string) list \<Rightarrow> string \<Rightarrow> string" where
  "subst \<sigma> x = (case map_of \<sigma> x of Some y \<Rightarrow> y | None \<Rightarrow> x)"

fun rename :: "(string \<times> string) list \<Rightarrow> event \<Rightarrow> event" where
  "rename \<sigma> (Define x) = Define x"
| "rename \<sigma> (Construct x) = Construct x"
| "rename \<sigma> (Train x) = Train (subst \<sigma> x)"
| "rename \<sigma> (EvalANN x) = EvalANN (subst \<sigma> x)"
| "rename \<sigma> (Convert x y) = Convert (subst \<sigma> x) y"
| "rename \<sigma> (EvalSNN x) = EvalSNN (subst \<sigma> x)"
| "rename \<sigma> (Run x) = Run (subst \<sigma> x)"
| "rename \<sigma> (Plot x) = Plot (subst \<sigma> x)"
| "rename \<sigma> (Other x) = Other x"

text \<open>
  Running statements gives the events in the order they happen. A call of a name that
  is not bound raises NameError. Functions may call functions: the fuel bounds the depth
  of the calls, and \<open>None\<close> is a run that needs more.
\<close>

fun exec ::
  "nat \<Rightarrow> fenv \<Rightarrow> (string \<times> string) list \<Rightarrow> stmt list \<Rightarrow> (py_error + event list \<times> fenv) option" where
  "exec fuel fs \<sigma> [] = Some (Inr ([], fs))"
| "exec fuel fs \<sigma> (Step e # rest) =
     (case exec fuel fs \<sigma> rest of
        Some (Inr (tr, fs')) \<Rightarrow> Some (Inr (rename \<sigma> e # tr, fs'))
      | r \<Rightarrow> r)"
| "exec fuel fs \<sigma> (Def f ps b # rest) = exec fuel (fs(f \<mapsto> (ps, b))) \<sigma> rest"
| "exec 0 fs \<sigma> (Call f as # rest) = None"
| "exec (Suc n) fs \<sigma> (Call f as # rest) =
     (case fs f of
        None \<Rightarrow> Some (Inl NameError)
      | Some (ps, b) \<Rightarrow>
          (case exec n fs (zip ps (map (subst \<sigma>) as)) b of
             Some (Inr (tr, _)) \<Rightarrow>
               (case exec (Suc n) fs \<sigma> rest of
                  Some (Inr (tr', fs')) \<Rightarrow> Some (Inr (tr @ tr', fs'))
                | r \<Rightarrow> r)
           | r \<Rightarrow> r))"

definition run_notebook :: "nat \<Rightarrow> stmt list list \<Rightarrow> (py_error + event list) option" where
  "run_notebook fuel cells =
     (case exec fuel Map.empty [] (concat cells) of
        Some (Inr (tr, _)) \<Rightarrow> Some (Inr tr)
      | Some (Inl e) \<Rightarrow> Some (Inl e)
      | None \<Rightarrow> None)"

text \<open>
  The weight transfer tutorial, cell by cell: the network \<open>ann = nn.Sequential(...)\<close>,
  the dataset class, the loaders, the training loop over \<open>train_loader\<close>, the accuracy of
  \<open>ann\<close> on \<open>test_loader\<close>, \<open>sinabs_model = from_model(ann, ...)\<close>, the display of
  \<open>sinabs_model.spiking_model\<close>, the spiking loader, the accuracy loop calling
  \<open>sinabs_model(data)\<close>, one sample, \<open>plt.imshow\<close>, \<open>snn_output = sinabs_model(img)\<close>,
  \<open>plt.pcolormesh\<close>.
\<close>

definition weight_transfer_mnist :: "stmt list list" where
  "weight_transfer_mnist =
     [[Step (Define ''ann'')],
      [Step (Other ''class MNIST'')],
      [Step (Other ''train_loader, test_loader'')],
      [Step (Train ''ann'')],
      [Step (EvalANN ''ann'')],
      [Step (Convert ''ann'' ''sinabs_model'')],
      [Step (Other ''sinabs_model.spiking_model'')],
      [Step (Other ''spike_test_loader'')],
      [Step (EvalSNN ''sinabs_model'')],
      [Step (Other ''img, label = spike_mnist_test[10]'')],
      [Step (Plot ''img'')],
      [Step (Run ''sinabs_model'')],
      [Step (Plot ''snn_output'')]]"

text \<open>
  The LeNet tutorial: the imports, the class \<open>LeNet5\<close>, the functions \<open>prepare\<close>,
  \<open>train\<close>, \<open>count_correct\<close>, \<open>test\<close>, \<open>tensor_tile\<close> and \<open>snn_test\<close> (which calls
  \<open>from_model\<close> itself, then evaluates), and two cells that call them:
  \<^verbatim>\<open>
  prepare()
  classifier = LeNet5().to(device)
  train(classifier, n_epochs=2)
  ann_accuracy = test(classifier)
  \<close>
  \<^verbatim>\<open>
  snn_accuracy = snn_test(classifier, n_dt=10, n_test=2000)
  \<close>
\<close>

definition LeNet_5_EngChinese :: "stmt list list" where
  "LeNet_5_EngChinese =
     [[Step (Other ''import'')],
      [Step (Define ''LeNet5'')],
      [Def ''prepare'' [] [Step (Other ''train_dataloader, test_dataloader, spiking_test_dataloader'')]],
      [Def ''train'' [''model'', ''n_epochs''] [Step (Train ''model'')]],
      [Def ''count_correct'' [''output'', ''target''] [],
       Def ''test'' [''model''] [Call ''count_correct'' [''outputs'', ''labels''], Step (EvalANN ''model'')]],
      [Def ''tensor_tile'' [''a'', ''dim'', ''n_tile''] [],
       Def ''snn_test'' [''model'', ''n_dt'', ''n_test'']
         [Step (Convert ''model'' ''net''),
          Call ''tensor_tile'' [''imgs'', ''0'', ''n_dt''],
          Call ''count_correct'' [''outputs'', ''labels''],
          Step (EvalSNN ''net'')]],
      [Call ''prepare'' [],
       Step (Construct ''classifier''),
       Call ''train'' [''classifier'', ''2''],
       Call ''test'' [''classifier'']],
      [Call ''snn_test'' [''classifier'', ''10'', ''2000'']]]"

text \<open>
  The synops tutorial: the network \<open>ann\<close>, a counter and a forward pass of \<open>ann\<close>, the
  class \<open>SNN\<close> and \<open>snn = SNN(batch_size=batch_size)\<close>, a counter and
  \<open>y_hat = snn(rand_input_spikes)\<close>, the counts, the loss term.
\<close>

definition synops_tutorial :: "stmt list list" where
  "synops_tutorial =
     [[Step (Define ''ann'')],
      [Step (Other ''synops_counter_ann''), Step (Other ''ann(rand_input)'')],
      [Step (Define ''SNN''), Step (Construct ''snn'')],
      [Step (Other ''synops_counter''), Step (Run ''snn'')],
      [Step (Other ''synops_counter.get_synops()'')],
      [Step (Other ''synops_loss'')]]"


subsection \<open>The order of the operations\<close>

text \<open>
  The phases the specification names, and the phase of an event. The phases of a run are
  the phases of its events in order, a phase that goes on over several events counted
  once.
\<close>

datatype phase =
  ModelDefinition | Training | Evaluation | Conversion | SpikingEvaluation | Plotting

fun phase_of :: "event \<Rightarrow> phase option" where
  "phase_of (Define x) = Some ModelDefinition"
| "phase_of (Train x) = Some Training"
| "phase_of (EvalANN x) = Some Evaluation"
| "phase_of (Convert x y) = Some Conversion"
| "phase_of (EvalSNN x) = Some SpikingEvaluation"
| "phase_of (Plot x) = Some Plotting"
| "phase_of e = None"

definition phases :: "event list \<Rightarrow> phase list" where
  "phases tr = remdups_adj (List.map_filter phase_of tr)"

text \<open>
  The specification's words: model definition, then training, then evaluation, then
  conversion, then evaluation of the converted model, then plotting.
\<close>

definition fixed_order :: "event list \<Rightarrow> bool" where
  "fixed_order tr =
     (phases tr = [ModelDefinition, Training, Evaluation, Conversion, SpikingEvaluation, Plotting])"

text \<open>
  Conversion never precedes the completion of training: a network is converted only
  after it has been trained, and nothing is trained after a conversion.
\<close>

fun trained_before_conversion :: "string list \<Rightarrow> bool \<Rightarrow> event list \<Rightarrow> bool" where
  "trained_before_conversion trained converted [] = True"
| "trained_before_conversion trained converted (Train x # rest) =
     (\<not> converted \<and> trained_before_conversion (x # trained) converted rest)"
| "trained_before_conversion trained converted (Convert x y # rest) =
     (x \<in> set trained \<and> trained_before_conversion trained True rest)"
| "trained_before_conversion trained converted (e # rest) =
     trained_before_conversion trained converted rest"

text \<open>The calls of \<open>from_model\<close> in a run: the network converted and the result.\<close>

fun conversion :: "event \<Rightarrow> (string \<times> string) option" where
  "conversion (Convert x y) = Some (x, y)"
| "conversion e = None"

definition conversions :: "event list \<Rightarrow> (string \<times> string) list" where
  "conversions tr = List.map_filter conversion tr"

text \<open>
  A spiking network is used by its evaluation and by a run. No converted network is
  used before its conversion; after a conversion, every use is of its result.
\<close>

fun spiking_use :: "event \<Rightarrow> string option" where
  "spiking_use (EvalSNN x) = Some x"
| "spiking_use (Run x) = Some x"
| "spiking_use e = None"

fun never_before_conversion :: "event list \<Rightarrow> bool" where
  "never_before_conversion [] = True"
| "never_before_conversion (e # rest) =
     ((case spiking_use e of
         Some x \<Rightarrow> x \<notin> snd ` set (conversions rest)
       | None \<Rightarrow> True) \<and> never_before_conversion rest)"

fun through_converted :: "string option \<Rightarrow> event list \<Rightarrow> bool" where
  "through_converted cur [] = True"
| "through_converted cur (Convert x y # rest) = through_converted (Some y) rest"
| "through_converted cur (e # rest) =
     ((case (cur, spiking_use e) of (Some y, Some x) \<Rightarrow> x = y | _ \<Rightarrow> True) \<and>
      through_converted cur rest)"

section \<open>Properties of class SNN\<close>

lemma str_nat_eval:
  "str_nat 0 = ''0''" "str_nat (Suc 0) = ''1''" "str_nat 2 = ''2''" "str_nat 3 = ''3''"
  "str_nat 4 = ''4''" "str_nat 5 = ''5''" "str_nat 6 = ''6''" "str_nat 7 = ''7''"
  "str_nat 8 = ''8''" "str_nat 9 = ''9''" "str_nat 10 = ''10''" "str_nat 11 = ''11''"
  "str_nat 12 = ''12''"
  by (simp_all add: str_nat.simps digit_char_def)

lemma upt_13: "[0..<13] = [0, 1, 2, 3, 4, 5, 6, 7, 8, 9, 10, 11, 12]"
  by (simp add: upt_rec)

lemma Sequential_init_13:
  "Sequential_init [a0, a1, a2, a3, a4, a5, a6, a7, a8, a9, a10, a11, a12] = Sequential
     [(''0'', a0), (''1'', a1), (''2'', a2), (''3'', a3), (''4'', a4), (''5'', a5), (''6'', a6),
      (''7'', a7), (''8'', a8), (''9'', a9), (''10'', a10), (''11'', a11), (''12'', a12)]"
proof -
  have len: "length [a0, a1, a2, a3, a4, a5, a6, a7, a8, a9, a10, a11, a12] = 13"
    by simp
  show ?thesis
    unfolding Sequential_init_def len upt_13 by (simp add: str_nat_eval)
qed

lemma SNN_init_no_net: "getattr (SNN_init b) ''net'' = Inl AttributeError"
  by (simp add: SNN_init_def Sequential_init_13)

text \<open>
  Claim C4. For every instance of the SNN class of the synops tutorial (any batch size),
  reading the property \<open>spiking_layers\<close> raises AttributeError, because the lookup of
  \<open>self.net\<close> fails: the submodules are registered under the names 0 to 12 and nothing
  is named net. Hence every call of \<open>reset_states\<close> raises AttributeError too.
\<close>

theorem SNN_spiking_layers_raises:
  "spiking_layers (SNN_init batch_size) = Inl AttributeError \<and>
   reset_states (SNN_init batch_size) = Inl AttributeError"
  by (simp add: spiking_layers_def reset_states_def SNN_init_no_net)

section \<open>Properties of tensor\_tile\<close>

lemma nd_repeat_ones:
  "has_shape sh t \<Longrightarrow> nd_repeat (replicate (length sh) (Suc 0)) t = t"
proof (induction sh arbitrary: t)
  case Nil
  then show ?case by simp
next
  case (Cons n ns)
  then obtain ts where t: "t = Nd ts" and all: "list_all (has_shape ns) ts"
    by (cases t) auto
  have "map (nd_repeat (replicate (length ns) (Suc 0))) ts = ts"
    using all Cons.IH by (simp add: list_all_iff map_idI)
  then show ?case by (simp add: t)
qed

lemma concat_replicate_nth:
  "q < n * length ts \<Longrightarrow> concat (replicate n ts) ! q = ts ! (q mod length ts)"
proof (induction n arbitrary: q)
  case 0
  then show ?case by simp
next
  case (Suc n)
  show ?case
  proof (cases "q < length ts")
    case True
    then show ?thesis by (simp add: nth_append)
  next
    case False
    then have "q - length ts < n * length ts" using Suc.prems by simp
    then have "concat (replicate n ts) ! (q - length ts) = ts ! ((q - length ts) mod length ts)"
      by (rule Suc.IH)
    then show ?thesis using False by (simp add: nth_append le_mod_geq)
  qed
qed

lemma length_concat_uniform:
  "\<forall>xs \<in> set xss. length xs = n \<Longrightarrow> length (concat xss) = length xss * n"
  by (induction xss) simp_all

lemma concat_uniform_nth:
  "\<forall>xs \<in> set xss. length xs = n \<Longrightarrow> i < length xss \<Longrightarrow> j < n \<Longrightarrow>
   concat xss ! (i * n + j) = xss ! i ! j"
proof (induction xss arbitrary: i)
  case Nil
  then show ?case by simp
next
  case (Cons xs xss)
  show ?case
  proof (cases i)
    case 0
    then show ?thesis using Cons.prems by (simp add: nth_append)
  next
    case (Suc i')
    have "concat xss ! (i' * n + j) = xss ! i' ! j"
      using Cons.prems Suc by (intro Cons.IH) auto
    moreover have "length xs = n" using Cons.prems by simp
    ultimately show ?thesis using Suc by (simp add: nth_append)
  qed
qed

lemma length_tile_order: "length (tile_order m n) = m * n"
  unfolding tile_order_def by (subst length_concat_uniform [where n = n]) auto

lemma tile_order_nth:
  assumes "i < m" "j < n"
  shows "tile_order m n ! (i * n + j) = m * j + i"
proof -
  have "tile_order m n ! (i * n + j) = map (\<lambda>i. map (\<lambda>j. m * j + i) [0..<n]) [0..<m] ! i ! j"
    unfolding tile_order_def using assms by (intro concat_uniform_nth) auto
  then show ?thesis using assms by simp
qed

lemma tile_order_bound: "x \<in> set (tile_order m n) \<Longrightarrow> x < m * n"
proof -
  assume "x \<in> set (tile_order m n)"
  then obtain i j where ij: "i < m" "j < n" "x = m * j + i"
    by (auto simp: tile_order_def)
  have "m * j + i < m * j + m" using ij by simp
  also have "\<dots> = m * Suc j" by simp
  also have "\<dots> \<le> m * n" using ij by (intro mult_le_mono2) simp
  finally show ?thesis using ij by simp
qed

lemma tile_slice:
  "has_shape sh t \<Longrightarrow> k < length sh \<Longrightarrow> i < sh ! k \<Longrightarrow> j < n \<Longrightarrow>
   nd_slice k (i * n + j)
     (nd_index_select k (tile_order (sh ! k) n)
        (nd_repeat ((replicate (length sh) (Suc 0))[k := n]) t)) = nd_slice k i t"
proof (induction k arbitrary: sh t)
  case 0
  then obtain m ns where sh: "sh = m # ns" by (cases sh) auto
  with 0 obtain ts where t: "t = Nd ts" and len: "length ts = m"
    and all: "list_all (has_shape ns) ts"
    by (cases t) auto
  have rep: "map (nd_repeat (replicate (length ns) (Suc 0))) ts = ts"
    using all by (intro map_idI) (auto simp: list_all_iff nd_repeat_ones)
  have im: "i < m" using 0 sh by simp
  have pos: "i * n + j < length (tile_order m n)"
  proof -
    have "i * n + j < i * n + n" using 0 by simp
    also have "\<dots> = Suc i * n" by simp
    also have "\<dots> \<le> m * n" using im by (intro mult_le_mono1) simp
    finally show ?thesis by (simp add: length_tile_order)
  qed
  have bound: "m * j + i < n * length ts"
    using tile_order_bound [of "m * j + i" m n] tile_order_nth [OF im \<open>j < n\<close>] pos len
    by (metis mult.commute nth_mem)
  have "concat (replicate n ts) ! (m * j + i) = ts ! ((m * j + i) mod length ts)"
    using bound by (rule concat_replicate_nth)
  also have "\<dots> = ts ! i" using im len by simp
  finally show ?case
    using pos by (simp add: sh t rep tile_order_nth [OF im \<open>j < n\<close>])
next
  case (Suc k)
  then obtain m ns where sh: "sh = m # ns" by (cases sh) auto
  with Suc obtain ts where t: "t = Nd ts" and all: "list_all (has_shape ns) ts"
    by (cases t) auto
  have "\<forall>c \<in> set ts. nd_slice k (i * n + j)
     (nd_index_select k (tile_order (ns ! k) n)
        (nd_repeat ((replicate (length ns) (Suc 0))[k := n]) c)) = nd_slice k i c"
    using Suc.IH [of ns] Suc.prems all sh by (auto simp: list_all_iff)
  then show ?case by (simp add: sh t)
qed


lemma concat_replicate_nth_mem:
  assumes "q < n * length ts"
  shows "concat (replicate n ts) ! q \<in> set ts"
proof -
  have "0 < length ts" using assms by (cases ts) auto
  then have "q mod length ts < length ts" by simp
  then show ?thesis using concat_replicate_nth [OF assms] by simp
qed

lemma tile_has_shape:
  "has_shape sh t \<Longrightarrow> k < length sh \<Longrightarrow>
   has_shape (sh[k := sh ! k * n])
     (nd_index_select k (tile_order (sh ! k) n)
        (nd_repeat ((replicate (length sh) (Suc 0))[k := n]) t))"
proof (induction k arbitrary: sh t)
  case 0
  then obtain m ns where sh: "sh = m # ns" by (cases sh) auto
  with 0 obtain ts where t: "t = Nd ts" and len: "length ts = m"
    and all: "list_all (has_shape ns) ts"
    by (cases t) auto
  have rep: "map (nd_repeat (replicate (length ns) (Suc 0))) ts = ts"
    using all by (intro map_idI) (auto simp: list_all_iff nd_repeat_ones)
  have "has_shape ns (concat (replicate n ts) ! x)" if "x \<in> set (tile_order m n)" for x
  proof -
    have "x < n * length ts" using tile_order_bound [OF that] len by (simp add: mult.commute)
    then have "concat (replicate n ts) ! x \<in> set ts" by (rule concat_replicate_nth_mem)
    then show ?thesis using all by (simp add: list_all_iff)
  qed
  then show ?case by (simp add: sh t rep length_tile_order list_all_iff)
next
  case (Suc k)
  then obtain m ns where sh: "sh = m # ns" by (cases sh) auto
  with Suc obtain ts where t: "t = Nd ts" and len: "length ts = m"
    and all: "list_all (has_shape ns) ts"
    by (cases t) auto
  have "\<forall>c \<in> set ts. has_shape (ns[k := ns ! k * n])
     (nd_index_select k (tile_order (ns ! k) n)
        (nd_repeat ((replicate (length ns) (Suc 0))[k := n]) c))"
    using Suc.IH [of ns] Suc.prems all sh by (auto simp: list_all_iff)
  then show ?case by (simp add: sh t len list_all_iff)
qed

lemma repeat_shape:
  assumes "k < length sh"
  shows "map2 (\<lambda>s r. s * nat r) sh ((replicate (length sh) 1)[k := n]) = sh[k := sh ! k * nat n]"
  using assms by (intro nth_equalityI) (auto simp: nth_list_update)

lemma repeat_reps:
  "map nat ((replicate r 1)[k := n]) = (replicate r (Suc 0))[k := nat n]"
  by (simp add: map_update)

lemma norm_dim_Inr: "norm_dim r d = Inr k \<Longrightarrow> k < r"
  by (auto simp: norm_dim_def split: if_splits)

lemma tensor_tile_result:
  assumes d: "norm_dim (dim_t a) d = Inr k"
    and m: "0 < shape a ! k"
    and n: "1 \<le> n_tile"
  shows "tensor_tile a d n_tile =
           Inr \<lparr>shape = (shape a)[k := shape a ! k * nat n_tile],
                body = nd_index_select k (tile_order (shape a ! k) (nat n_tile))
                  (nd_repeat ((replicate (length (shape a)) (Suc 0))[k := nat n_tile]) (body a))\<rparr>"
proof -
  let ?m = "shape a ! k" and ?n = "nat n_tile"
  let ?reps = "(replicate (dim_t a) (1::int))[k := n_tile]"
  let ?a' = "\<lparr>shape = (shape a)[k := ?m * ?n],
              body = nd_repeat ((replicate (length (shape a)) (Suc 0))[k := ?n]) (body a)\<rparr>"
  have k: "k < length (shape a)" using norm_dim_Inr [OF d] by (simp add: dim_t_def)
  have nonneg: "\<not> (\<exists>r \<in> set ?reps. r < 0)"
    using n by (auto dest!: set_update_subset_insert [THEN subsetD])
  have rep: "torch_repeat a ?reps = Inr ?a'"
    using nonneg k by (simp add: torch_repeat_def dim_t_def repeat_shape repeat_reps del: set_replicate_conv_if)
  have oi: "order_index ?m n_tile = Inr (tile_order ?m ?n)"
    using m by (simp add: order_index_def)
  have d': "norm_dim (dim_t ?a') d = Inr k" using d by (simp add: dim_t_def)
  have inrange: "\<not> (\<exists>i \<in> set (tile_order ?m ?n). shape ?a' ! k \<le> i)"
    using k tile_order_bound [of _ ?m ?n] by (auto simp: not_le)
  have sel: "index_select ?a' d (tile_order ?m ?n) = Inr
      \<lparr>shape = (shape a)[k := ?m * ?n],
       body = nd_index_select k (tile_order ?m ?n)
                (nd_repeat ((replicate (length (shape a)) (Suc 0))[k := ?n]) (body a))\<rparr>"
    using inrange by (simp add: index_select_def d' length_tile_order)
  show ?thesis
    using d by (simp add: tensor_tile_def size_t_def list_setitem_def dim_t_def
        rep [unfolded dim_t_def] oi sel)
qed

text \<open>
  Claim C6, amended. For every well-formed tensor \<open>a\<close>, every valid dimension \<open>d\<close>
  (negative ones included; \<open>k\<close> is its position counted from the front) whose size is
  \<open>m \<ge> 1\<close>, and every \<open>n_tile = n \<ge> 1\<close>, \<open>tensor_tile(a, d, n)\<close> returns a tensor
  whose size along \<open>d\<close> is \<open>m * n\<close>, all other sizes unchanged, and whose slice at index
  \<open>i * n + j\<close> along \<open>d\<close> (for \<open>i < m\<close>, \<open>j < n\<close>) is the slice of \<open>a\<close> at index \<open>i\<close>.
  For \<open>m = 1\<close> this says that the result is \<open>n\<close> copies of \<open>a\<close> along \<open>d\<close>.
\<close>

theorem tensor_tile_slices:
  assumes wf: "well_formed a"
    and d: "norm_dim (dim_t a) d = Inr k"
    and m: "0 < shape a ! k"
    and n: "1 \<le> n_tile"
  shows "\<exists>r. tensor_tile a d n_tile = Inr r \<and> well_formed r \<and>
           shape r = (shape a)[k := shape a ! k * nat n_tile] \<and>
           (\<forall>i < shape a ! k. \<forall>j < nat n_tile.
              nd_slice k (i * nat n_tile + j) (body r) = nd_slice k i (body a))"
proof -
  let ?m = "shape a ! k" and ?n = "nat n_tile"
  let ?b = "nd_index_select k (tile_order ?m ?n)
              (nd_repeat ((replicate (length (shape a)) (Suc 0))[k := ?n]) (body a))"
  let ?r = "\<lparr>shape = (shape a)[k := ?m * ?n], body = ?b\<rparr>"
  have k: "k < length (shape a)" using norm_dim_Inr [OF d] by (simp add: dim_t_def)
  have tile: "tensor_tile a d n_tile = Inr ?r" using d m n by (rule tensor_tile_result)
  have "well_formed ?r"
    using tile_has_shape [OF wf [unfolded well_formed_def] k, of ?n]
    by (simp add: well_formed_def)
  moreover have "\<forall>i < ?m. \<forall>j < ?n. nd_slice k (i * ?n + j) ?b = nd_slice k i (body a)"
    using tile_slice [OF wf [unfolded well_formed_def] k] by blast
  ultimately show ?thesis using tile by simp
qed

theorem tensor_tile_slices_witness:
  "well_formed \<lparr>shape = [1, 2], body = Nd [Nd [Sc (5::real), Sc 7]]\<rparr> \<and>
   norm_dim (dim_t \<lparr>shape = [1, 2], body = Nd [Nd [Sc (5::real), Sc 7]]\<rparr>) (- 1) = Inr 1 \<and>
   0 < shape \<lparr>shape = [1, 2], body = Nd [Nd [Sc (5::real), Sc 7]]\<rparr> ! 1 \<and> (1::int) \<le> 3 \<and>
   (\<exists>r. tensor_tile \<lparr>shape = [1, 2], body = Nd [Nd [Sc (5::real), Sc 7]]\<rparr> (- 1) 3 = Inr r \<and>
        well_formed r \<and> shape r = [1, 6] \<and>
        (\<forall>i < 2. \<forall>j < 3. nd_slice 1 (i * 3 + j) (body r) =
           nd_slice 1 i (Nd [Nd [Sc (5::real), Sc 7]])))"
proof -
  let ?a = "\<lparr>shape = [1, 2], body = Nd [Nd [Sc (5::real), Sc 7]]\<rparr>"
  have h1: "well_formed ?a" by (simp add: well_formed_def)
  have h2: "norm_dim (dim_t ?a) (- 1) = Inr 1" by (simp add: norm_dim_def dim_t_def)
  have h3: "0 < shape ?a ! 1" by simp
  have h4: "(1::int) \<le> 3" by simp
  show ?thesis using h1 h2 h3 tensor_tile_slices [OF h1 h2 h3 h4] by simp
qed

text \<open>
  The claim as first stated, for every size \<open>m\<close>, fails at \<open>m = 0\<close>: for a tensor of
  shape \<open>(0)\<close> the list of index arrays is empty and \<open>np.concatenate\<close> raises
  ValueError, where the claim has a result of size \<open>0 * n\<close>.
\<close>

theorem tensor_tile_empty_dimension:
  "well_formed \<lparr>shape = [0], body = Nd ([] :: real nd list)\<rparr> \<and>
   norm_dim (dim_t \<lparr>shape = [0], body = Nd ([] :: real nd list)\<rparr>) 0 = Inr 0 \<and>
   tensor_tile \<lparr>shape = [0], body = Nd ([] :: real nd list)\<rparr> 0 1 = Inl ValueError"
  by (simp add: well_formed_def norm_dim_def dim_t_def tensor_tile_def size_t_def
      list_setitem_def torch_repeat_def order_index_def)

section \<open>Properties of count\_correct\<close>

lemma max_scan_spec:
  assumes "k < length ys" "ys ! k = v" "\<forall>y \<in> set ys. y \<le> v" "\<forall>j < k. ys ! j < v"
  shows "case max_scan v k (length ys) xs of (v', k') \<Rightarrow>
           k' < length (ys @ xs) \<and> (ys @ xs) ! k' = v' \<and>
           (\<forall>y \<in> set (ys @ xs). y \<le> v') \<and> (\<forall>j < k'. (ys @ xs) ! j < v')"
  using assms
proof (induction xs arbitrary: ys v k)
  case Nil
  then show ?case by simp
next
  case (Cons x xs)
  show ?case
  proof (cases "v < x")
    case True
    have "case max_scan x (length ys) (length (ys @ [x])) xs of (v', k') \<Rightarrow>
           k' < length ((ys @ [x]) @ xs) \<and> ((ys @ [x]) @ xs) ! k' = v' \<and>
           (\<forall>y \<in> set ((ys @ [x]) @ xs). y \<le> v') \<and> (\<forall>j < k'. ((ys @ [x]) @ xs) ! j < v')"
    proof (rule Cons.IH)
      show "\<forall>y\<in>set (ys @ [x]). y \<le> x" using Cons.prems True by auto
      show "\<forall>j<length ys. (ys @ [x]) ! j < x"
        using Cons.prems True by (auto simp: nth_append intro: le_less_trans)
    qed simp_all
    then show ?thesis using True by simp
  next
    case False
    have "case max_scan v k (length (ys @ [x])) xs of (v', k') \<Rightarrow>
           k' < length ((ys @ [x]) @ xs) \<and> ((ys @ [x]) @ xs) ! k' = v' \<and>
           (\<forall>y \<in> set ((ys @ [x]) @ xs). y \<le> v') \<and> (\<forall>j < k'. ((ys @ [x]) @ xs) ! j < v')"
    proof (rule Cons.IH)
      show "k < length (ys @ [x])" using Cons.prems by simp
      show "(ys @ [x]) ! k = v" using Cons.prems by (simp add: nth_append)
      show "\<forall>y\<in>set (ys @ [x]). y \<le> v" using Cons.prems False by auto
      show "\<forall>j<k. (ys @ [x]) ! j < v" using Cons.prems by (simp add: nth_append)
    qed
    then show ?thesis using False by simp
  qed
qed

lemma max_row_first_argmax:
  assumes "r \<noteq> []"
  shows "max_row r = Some (Max (set r), first_argmax r)"
proof -
  obtain x xs where r: "r = x # xs" using assms by (cases r) auto
  obtain v' k' where mk: "max_scan x 0 (length [x]) xs = (v', k')" by fastforce
  have spec: "k' < length r \<and> r ! k' = v' \<and> (\<forall>y \<in> set r. y \<le> v') \<and> (\<forall>j < k'. r ! j < v')"
    using max_scan_spec [of 0 "[x]" x xs] mk by (simp add: r)
  then have "v' \<in> set r" by (metis nth_mem)
  with spec have mx: "Max (set r) = v'" by (intro Max_eqI) auto
  have "first_argmax r = k'"
    unfolding first_argmax_def mx
  proof (rule Least_equality)
    show "k' < length r \<and> r ! k' = v'" using spec by simp
    show "k' \<le> y" if "y < length r \<and> r ! y = v'" for y
    proof (rule ccontr)
      assume "\<not> k' \<le> y"
      then have "r ! y < v'" using spec by simp
      with that show False by simp
    qed
  qed
  with mx mk show ?thesis by (simp add: r)
qed

lemma those_map_Some: "those (map (\<lambda>x. Some (f x)) xs) = Some (map f xs)"
  by (induction xs) simp_all

lemma torch_max_dim1_rows:
  assumes "wf_matrix m" "0 < ncols m"
  shows "torch_max_dim1 m = Inr (map (\<lambda>r. Max (set r)) (rows m), map first_argmax (rows m))"
proof -
  have "map max_row (rows m) = map (\<lambda>r. Some (Max (set r), first_argmax r)) (rows m)"
  proof (rule map_cong [OF refl])
    fix r assume "r \<in> set (rows m)"
    then have "length r = ncols m" using assms by (simp add: wf_matrix_def list_all_iff)
    then have "r \<noteq> []" using assms by auto
    then show "max_row r = Some (Max (set r), first_argmax r)" by (rule max_row_first_argmax)
  qed
  then have "those (map max_row (rows m)) =
      Some (map (\<lambda>r. (Max (set r), first_argmax r)) (rows m))"
    by (simp only: those_map_Some)
  then show ?thesis
    using assms(2) by (simp add: torch_max_dim1_def comp_def)
qed

lemma count_correct_eq:
  assumes "wf_matrix output" "nrows output = b" "length target = b" "0 < ncols output"
  shows "count_correct output target =
           Inr (real (card {i. i < b \<and> int (first_argmax (rows output ! i)) = target ! i}))"
proof -
  let ?S = "{i. i < b \<and> int (first_argmax (rows output ! i)) = target ! i}"
  let ?eqs = "map2 (=) (map int (map first_argmax (rows output))) target"
  have len: "length (rows output) = b" using assms by (simp add: wf_matrix_def)
  have "length (filter id ?eqs) = card {i. i < length ?eqs \<and> id (?eqs ! i)}"
    by (rule length_filter_conv_card)
  also have "{i. i < length ?eqs \<and> id (?eqs ! i)} = ?S"
    using len assms by auto
  finally have cnt: "length (filter id ?eqs) = card ?S" .
  have "count_correct output target = Inr (real (length (filter id ?eqs)))"
    using assms len by (simp add: count_correct_def torch_max_dim1_rows eq_broadcast_def)
  then show ?thesis using cnt by simp
qed

lemma card_correct_le: "card {i. i < b \<and> P i} \<le> b"
proof -
  have "card {i. i < b \<and> P i} \<le> card {..<b}" by (intro card_mono) auto
  then show ?thesis by simp
qed




section \<open>Properties of test and snn\_test\<close>

text \<open>
  The network test divides the number of correct predictions by the number of labels it
  has seen: its accuracy is a percentage.
\<close>

lemma test_loop_counts:
  assumes "\<forall>(imgs, labels) \<in> set loader.
             wf_matrix (model imgs) \<and> nrows (model imgs) = length labels \<and> 0 < ncols (model imgs)"
  shows "\<exists>k. test_loop model loader c n = Inr (c + real k, n + total_labels loader) \<and>
              k \<le> total_labels loader"
  using assms
proof (induction loader arbitrary: c n)
  case Nil
  then show ?case by simp
next
  case (Cons x loader)
  obtain imgs labels where x: "x = (imgs, labels)" by (cases x)
  let ?S = "{i. i < length labels \<and> int (first_argmax (rows (model imgs) ! i)) = labels ! i}"
  have cc: "count_correct (model imgs) labels = Inr (real (card ?S))"
    using Cons.prems x by (intro count_correct_eq) auto
  have le: "card ?S \<le> length labels" by (rule card_correct_le)
  have "\<exists>k. test_loop model loader (c + real (card ?S)) (n + length labels) =
      Inr (c + real (card ?S) + real k, n + length labels + total_labels loader) \<and>
      k \<le> total_labels loader"
    using Cons.prems by (intro Cons.IH) simp
  then obtain k where k: "test_loop model loader (c + real (card ?S)) (n + length labels) =
      Inr (c + real (card ?S) + real k, n + length labels + total_labels loader)"
    and kle: "k \<le> total_labels loader"
    by blast
  have "test_loop model (x # loader) c n =
      Inr (c + real (card ?S + k), n + total_labels (x # loader))"
    using k by (simp add: x cc add.assoc)
  moreover have "card ?S + k \<le> total_labels (x # loader)"
    using le kle by (simp add: x)
  ultimately show ?case by blast
qed

lemma test_accuracy:
  assumes "\<forall>(imgs, labels) \<in> set loader.
             wf_matrix (model imgs) \<and> nrows (model imgs) = length labels \<and> 0 < ncols (model imgs)"
    and "0 < total_labels loader"
  shows "\<exists>k. test model loader = Inr (real k / real (total_labels loader) * 100) \<and>
              k \<le> total_labels loader"
proof -
  obtain k where "test_loop model loader 0 0 = Inr (0 + real k, 0 + total_labels loader)"
    and "k \<le> total_labels loader"
    using test_loop_counts [OF assms(1), of 0 0] by blast
  then show ?thesis using assms(2) by (auto simp: test_def)
qed

text \<open>
  The spiking test stops at the first index greater than \<open>n_test\<close>: of the loader it
  reads the batches at the indices 0 to \<open>n_test\<close>, one more than \<open>n_test\<close>.
\<close>

lemma snn_loop_take:
  "snn_loop net n_dt n_test i loader s c =
   snn_loop net n_dt n_test i (take (nat (n_test + 1 - int i)) loader) s c"
proof (induction loader arbitrary: i s c)
  case Nil
  then show ?case by simp
next
  case (Cons x loader)
  obtain imgs labels where x: "x = (imgs, labels)" by (cases x)
  show ?case
  proof (cases "int i > n_test")
    case True
    then show ?thesis by (simp add: x)
  next
    case False
    then have n: "nat (n_test + 1 - int i) = Suc (nat (n_test + 1 - int (Suc i)))" by simp
    show ?thesis
      unfolding n using False Cons.IH [of "Suc i"]
      by (simp add: x split: sum.splits prod.splits)
  qed
qed

lemma tile_blank:
  "\<exists>b. tensor_tile blank_image 0 1 = Inr \<lparr>shape = [1, 1, 28, 28], body = b\<rparr>"
proof -
  have "norm_dim (dim_t blank_image) 0 = Inr 0"
    by (simp add: norm_dim_def dim_t_def blank_image_def)
  moreover have "0 < shape blank_image ! 0" by (simp add: blank_image_def)
  ultimately have "tensor_tile blank_image 0 1 =
           Inr \<lparr>shape = (shape blank_image)[0 := shape blank_image ! 0 * nat 1],
                body = nd_index_select 0 (tile_order (shape blank_image ! 0) (nat 1))
                  (nd_repeat ((replicate (length (shape blank_image)) (Suc 0))[0 := nat 1])
                     (body blank_image))\<rparr>"
    by (intro tensor_tile_result) simp_all
  then show ?thesis by (simp add: blank_image_def)
qed

lemma count_one_hot:
  "count_correct (sum_dim0_keepdim \<lparr>nrows = n, ncols = 2, rows = [[1, 0]]\<rparr>) [0] = Inr 1"
  by (simp add: count_correct_def sum_dim0_keepdim_def torch_max_dim1_def eq_broadcast_def
      numeral_2_eq_2)

text \<open>
  Claim C3 says that every reported accuracy is the number of correct samples over the
  number of samples evaluated, times 100, hence at most 100, and that \<open>snn_test\<close>
  reports the accuracy over exactly the \<open>n_test\<close> samples it evaluates. With
  \<open>n_test = 1\<close> and a loader of two samples that the network both gets right,
  \<open>snn_test\<close> evaluates both and divides by 1: it reports 200.
\<close>

theorem snn_test_two_of_one:
  "snn_test (\<lambda>m. first_class_net) () 1 1 [(blank_image, [0]), (blank_image, [0])] = Inr 200"
proof -
  obtain b where t: "tensor_tile blank_image 0 1 = Inr \<lparr>shape = [1, 1, 28, 28], body = b\<rparr>"
    using tile_blank by blast
  show ?thesis
    by (simp add: snn_test_def t first_class_net_def count_one_hot)
qed

section \<open>Properties of the MNIST dataset\<close>

lemma has_shape_map_nd: "has_shape sh (map_nd f t) = has_shape sh t"
proof (induction sh arbitrary: t)
  case Nil
  then show ?case by (cases t) simp_all
next
  case (Cons n ns)
  then show ?case by (cases t) (simp_all add: list_all_iff)
qed

lemma has_shape_nd_fill: "has_shape sh (nd_fill sh f)"
  by (induction sh arbitrary: f) (simp_all add: list_all_iff)

lemma has_shape_nd_lt: "has_shape sh a \<Longrightarrow> has_shape sh b \<Longrightarrow> has_shape sh (nd_lt a b)"
proof (induction sh arbitrary: a b)
  case Nil
  then show ?case by (cases a; cases b) simp_all
next
  case (Cons n ns)
  then obtain xs ys where ab: "a = Nd xs" "b = Nd ys" by (cases a; cases b) auto
  have "has_shape ns (nd_lt x y)" if "(x, y) \<in> set (zip xs ys)" for x y
  proof -
    have "x \<in> set xs" "y \<in> set ys" using that by (auto dest: set_zip_leftD set_zip_rightD)
    then show ?thesis using Cons.prems ab by (intro Cons.IH) (auto simp: list_all_iff)
  qed
  then show ?case using Cons.prems ab by (auto simp: list_all_iff)
qed

lemma has_shape_slice0: "has_shape (n # ns) t \<Longrightarrow> k < n \<Longrightarrow> has_shape ns (nd_slice 0 k t)"
  by (cases t) (auto simp: list_all_length)

lemma nd_get_map_nd: "nd_get idx (map_nd f t) = map_option f (nd_get idx t)"
  by (induction idx t rule: nd_get.induct) simp_all

lemma nd_get_nd_lt:
  "nd_get idx a = Some x \<Longrightarrow> nd_get idx b = Some y \<Longrightarrow> nd_get idx (nd_lt a b) = Some (x < y)"
proof (induction idx arbitrary: a b)
  case Nil
  then show ?case by (cases a; cases b) simp_all
next
  case (Cons i idx)
  then obtain xs ys where ab: "a = Nd xs" "b = Nd ys" by (cases a; cases b) auto
  with Cons.prems have i: "i < length xs" "i < length ys"
    and g: "nd_get idx (xs ! i) = Some x" "nd_get idx (ys ! i) = Some y"
    by (auto split: if_splits)
  then show ?case using Cons.IH [OF g] by (simp add: ab)
qed

lemma nd_get_has_shape:
  "has_shape sh t \<Longrightarrow> list_all2 (<) idx sh \<Longrightarrow> \<exists>x. nd_get idx t = Some x"
proof (induction sh arbitrary: t idx)
  case Nil
  then show ?case by (cases t) simp_all
next
  case (Cons n ns)
  then obtain ts where t: "t = Nd ts" by (cases t) auto
  from Cons.prems obtain i js where idx: "idx = i # js" "i < n" "list_all2 (<) js ns"
    by (auto simp: list_all2_Cons2)
  have "has_shape ns (ts ! i)" using Cons.prems t idx by (auto simp: list_all_length)
  then show ?case using Cons.IH [of "ts ! i" js] Cons.prems t idx by auto
qed

lemma nd_get_fill4:
  "t < T \<Longrightarrow> r < 28 \<Longrightarrow> c < 28 \<Longrightarrow>
   nd_get [t, 0, r, c] (nd_fill [T, 1, 28, 28] g) = Some (g (t * 784 + r * 28 + c))"
  by (simp add: add.assoc)

lemma gray_level_range: "0 \<le> gray_level p \<and> gray_level p \<le> 1"
proof -
  have "unat p < 2 ^ 8" using unsigned_less [of p] by simp
  then have "unat p \<le> 255" by simp
  then have "real (unat p) \<le> real 255" by (rule of_nat_mono)
  then have b: "real (unat p) \<le> 255" by simp
  have a: "0 \<le> real (unat p)" by (rule of_nat_0_le_iff)
  have aux: "0 \<le> x \<Longrightarrow> x \<le> 255 \<Longrightarrow> 0 \<le> x / 255 \<and> x / 255 \<le> 1" for x :: real
    by simp
  show ?thesis unfolding gray_level_def by (rule aux [OF a b])
qed


lemma getitem_image:
  assumes wf: "wf_mnist self N" and idx: "norm_dim N index = Inr k"
  shows "\<exists>ts. body (data self) = Nd ts \<and> k < length ts \<and> has_shape [28, 28] (ts ! k) \<and>
           tensor_getitem (data self) index = Inr \<lparr>shape = [28, 28], body = ts ! k\<rparr> \<and>
           list_getitem (targets self) index = Inr (targets self ! k)"
proof -
  have hs: "has_shape [N, 28, 28] (body (data self))" and sh: "shape (data self) = [N, 28, 28]"
    and len: "length (targets self) = N"
    using wf by (auto simp: wf_mnist_def well_formed_def)
  have k: "k < N" using idx by (rule norm_dim_Inr)
  obtain ts where ts: "body (data self) = Nd ts" "length ts = N"
    using hs by (cases "body (data self)") auto
  have "has_shape [28, 28] (ts ! k)" using has_shape_slice0 [OF hs k] ts by simp
  then show ?thesis
    using ts k idx sh len by (simp add: tensor_getitem_def list_getitem_def)
qed

lemma getitem_result:
  assumes wf: "wf_mnist self N" and idx: "norm_dim N index = Inr k"
    and tw: "is_spiking self \<Longrightarrow> 0 \<le> time_window self"
  shows "if is_spiking self
         then \<exists>raster. getitem self index g =
                  Inr ((raster, targets self ! k), \<lambda>i. g (i + nat (time_window self) * 784)) \<and>
                well_formed raster \<and> shape raster = [nat (time_window self), 1, 28, 28] \<and>
                (\<forall>x \<in> set_nd (body raster). x = 0 \<or> x = 1) \<and>
                (\<forall>t < nat (time_window self). \<forall>r < 28. \<forall>c < 28.
                   \<exists>p. nd_get [k, r, c] (body (data self)) = Some p \<and>
                       nd_get [t, 0, r, c] (body raster) =
                         Some (if g (t * 784 + r * 28 + c) < gray_level p then 1 else 0))
         else \<exists>img. getitem self index g = Inr ((img, targets self ! k), g) \<and>
                well_formed img \<and> shape img = [1, 28, 28] \<and>
                (\<forall>x \<in> set_nd (body img). 0 \<le> x \<and> x \<le> 1) \<and>
                (\<forall>r < 28. \<forall>c < 28.
                   \<exists>p. nd_get [k, r, c] (body (data self)) = Some p \<and>
                       nd_get [0, r, c] (body img) = Some (gray_level p))"
proof -
  let ?T = "nat (time_window self)"
  let ?f = gray_level
  obtain ts where ts: "body (data self) = Nd ts" and k: "k < length ts"
    and hs: "has_shape [28, 28] (ts ! k)"
    and gd: "tensor_getitem (data self) index = Inr \<lparr>shape = [28, 28], body = ts ! k\<rparr>"
    and gt: "list_getitem (targets self) index = Inr (targets self ! k)"
    using getitem_image [OF wf idx] by blast
  let ?img = "\<lparr>shape = [1, 28, 28], body = Nd [map_nd ?f (ts ! k)]\<rparr>"
  have img: "div_255 (unsqueeze0 \<lparr>shape = [28, 28], body = ts ! k\<rparr>) = ?img"
    by (simp add: div_255_def unsqueeze0_def)
  have wf_img: "well_formed ?img"
    using hs by (simp add: well_formed_def has_shape_map_nd)
  have pix: "\<exists>p. nd_get [k, r, c] (body (data self)) = Some p \<and>
               nd_get [0, r, c] (body ?img) = Some (?f p)" if rc: "r < 28" "c < 28" for r c
  proof -
    obtain p where p: "nd_get [r, c] (ts ! k) = Some p"
      using nd_get_has_shape [OF hs, of "[r, c]"] rc by auto
    then show ?thesis using k by (simp add: ts nd_get_map_nd)
  qed
  show ?thesis
  proof (cases "is_spiking self")
    case False
    have "getitem self index g = Inr ((?img, targets self ! k), g)"
      using False by (simp add: getitem_def gd gt img)
    moreover have "\<forall>x \<in> set_nd (body ?img). 0 \<le> x \<and> x \<le> 1"
      using gray_level_range by (auto simp: nd.set_map)
    ultimately show ?thesis using False wf_img pix by auto
  next
    case True
    let ?r = "nd_fill [?T, 1, 28, 28] g"
    let ?cmp = "Nd (map (\<lambda>s. nd_lt s (body ?img))
                  (map (\<lambda>i. nd_fill [1, 28, 28] (\<lambda>j. g (i * 784 + j))) [0..<?T]))"
    let ?raster = "\<lparr>shape = [?T, 1, 28, 28], body = map_nd (\<lambda>b. if b then 1 else (0::real)) ?cmp\<rparr>"
    have get: "getitem self index g = Inr ((?raster, targets self ! k), \<lambda>i. g (i + ?T * 784))"
      using True tw
      by (simp add: getitem_def gd gt img torch_rand_def to_float_def lt_lead_def)
    have shp: "has_shape [?T, 1, 28, 28] ?cmp"
    proof -
      have "has_shape [1, 28, 28] (nd_lt (nd_fill [1, 28, 28] h) (body ?img))" for h
        using wf_img has_shape_nd_fill [of "[1, 28, 28]" h]
        by (intro has_shape_nd_lt) (simp_all add: well_formed_def del: nd_fill.simps)
      then show ?thesis by (simp add: list_all_iff del: nd_fill.simps)
    qed
    have wf_r: "well_formed ?raster"
      using shp by (simp only: well_formed_def tensor.select_convs has_shape_map_nd)
    have bin: "\<forall>x \<in> set_nd (body ?raster). x = 0 \<or> x = 1"
      by (auto simp: nd.set_map)
    have rate: "\<exists>p. nd_get [k, r, c] (body (data self)) = Some p \<and>
                  nd_get [t, 0, r, c] (body ?raster) =
                    Some (if g (t * 784 + r * 28 + c) < ?f p then 1 else 0)"
      if trc: "t < ?T" "r < 28" "c < 28" for t r c
    proof -
      obtain p where p: "nd_get [k, r, c] (body (data self)) = Some p"
        and q: "nd_get [0, r, c] (body ?img) = Some (?f p)"
        using pix [OF trc(2,3)] by blast
      have u: "nd_get [0, r, c] (nd_fill [1, 28, 28] (\<lambda>j. g (t * 784 + j))) =
                 Some (g (t * 784 + r * 28 + c))"
        using trc by (simp add: add.assoc)
      have "nd_get [0, r, c] (nd_lt (nd_fill [1, 28, 28] (\<lambda>j. g (t * 784 + j))) (body ?img)) =
              Some (g (t * 784 + r * 28 + c) < ?f p)"
        using u q by (rule nd_get_nd_lt)
      then have c1: "nd_get [t, 0, r, c] ?cmp = Some (g (t * 784 + r * 28 + c) < ?f p)"
        using trc by simp
      have "nd_get [t, 0, r, c] (body ?raster) =
              map_option (\<lambda>b. if b then 1 else 0) (nd_get [t, 0, r, c] ?cmp)"
        by (simp only: tensor.select_convs nd_get_map_nd)
      also have "\<dots> = Some (if g (t * 784 + r * 28 + c) < ?f p then 1 else 0)"
        by (simp only: c1 option.map)
      finally show ?thesis using p by blast
    qed
    show ?thesis using True get wf_r bin rate by auto
  qed
qed


text \<open>
  Claim C1, amended. For every MNIST dataset instance and every valid index (\<open>k\<close> is the
  index counted from the front), \<open>__getitem__\<close> returns a pair of an image and the target
  of that index. With \<open>is_spiking=True\<close> and a time window \<open>T \<ge> 0\<close> the image is a raster
  of shape \<open>(T, 1, 28, 28)\<close> whose entries are all exactly 0 or 1: the entry at time step
  \<open>t\<close> and pixel \<open>(r, c)\<close> is 1 exactly when the uniform sample drawn for it is below the
  byte \<open>p\<close> of the pixel divided by 255, so that the rate of events of a pixel is
  proportional to its gray level. With \<open>is_spiking=False\<close> the image has shape
  \<open>(1, 28, 28)\<close> and its entries are the bytes divided by 255, in \<open>[0, 1]\<close>; the generator
  is not touched.
\<close>

theorem getitem_spec:
  assumes wf: "wf_mnist self N" and idx: "norm_dim N index = Inr k"
    and tw: "is_spiking self \<Longrightarrow> 0 \<le> time_window self"
  shows "if is_spiking self
         then \<exists>raster. getitem self index g =
                  Inr ((raster, targets self ! k), \<lambda>i. g (i + nat (time_window self) * 784)) \<and>
                well_formed raster \<and> shape raster = [nat (time_window self), 1, 28, 28] \<and>
                (\<forall>x \<in> set_nd (body raster). x = 0 \<or> x = 1) \<and>
                (\<forall>t < nat (time_window self). \<forall>r < 28. \<forall>c < 28.
                   \<exists>p. nd_get [k, r, c] (body (data self)) = Some p \<and>
                       nd_get [t, 0, r, c] (body raster) =
                         Some (if g (t * 784 + r * 28 + c) < real (unat p) / 255 then 1 else 0))
         else \<exists>img. getitem self index g = Inr ((img, targets self ! k), g) \<and>
                well_formed img \<and> shape img = [1, 28, 28] \<and>
                (\<forall>x \<in> set_nd (body img). 0 \<le> x \<and> x \<le> 1) \<and>
                (\<forall>r < 28. \<forall>c < 28.
                   \<exists>p. nd_get [k, r, c] (body (data self)) = Some p \<and>
                       nd_get [0, r, c] (body img) = Some (real (unat p) / 255))"
  using getitem_result [OF wf idx tw, of g] unfolding gray_level_def by simp

lemma two_tone_wf: "wf_mnist (two_tone_mnist spiking T) 1"
  by (simp add: wf_mnist_def two_tone_mnist_def well_formed_def list_all_iff)

lemma two_tone_pixels:
  "nd_get [0, 3, 0] (body (data (two_tone_mnist spiking T))) = Some 255"
  "nd_get [0, 3, 14] (body (data (two_tone_mnist spiking T))) = Some 51"
  "nd_get [0, 3, 15] (body (data (two_tone_mnist spiking T))) = Some 51"
  by (simp_all add: two_tone_mnist_def nth_append)

lemma byte_values: "real (unat (255 :: 8 word)) = 255" "real (unat (51 :: 8 word)) = 51"
  by simp_all

theorem getitem_spec_witness:
  "wf_mnist (two_tone_mnist True 2) 1 \<and> wf_mnist (two_tone_mnist False 2) 1 \<and>
   norm_dim 1 (- 1) = Inr 0 \<and> (0::int) \<le> 2 \<and>
   (\<exists>raster g'. getitem (two_tone_mnist True 2) (- 1) alternating_rng = Inr ((raster, 7), g') \<and>
      shape raster = [2, 1, 28, 28] \<and> (\<forall>x \<in> set_nd (body raster). x = 0 \<or> x = 1) \<and>
      nd_get [1, 0, 3, 0] (body raster) = Some 1 \<and>
      nd_get [1, 0, 3, 14] (body raster) = Some 1 \<and>
      nd_get [1, 0, 3, 15] (body raster) = Some 0) \<and>
   (\<exists>img. getitem (two_tone_mnist False 2) (- 1) alternating_rng =
        Inr ((img, 7), alternating_rng) \<and>
      shape img = [1, 28, 28] \<and>
      nd_get [0, 3, 0] (body img) = Some 1 \<and> nd_get [0, 3, 14] (body img) = Some (1 / 5))"
proof -
  let ?s = "two_tone_mnist True 2" and ?n = "two_tone_mnist False 2"
  have h2: "norm_dim 1 (- 1) = Inr 0" by (simp add: norm_dim_def)
  have f: "is_spiking ?s" "time_window ?s = 2" "targets ?s ! 0 = 7"
    "\<not> is_spiking ?n" "targets ?n ! 0 = 7"
    by (simp_all add: two_tone_mnist_def)
  have tws: "is_spiking ?s \<Longrightarrow> 0 \<le> time_window ?s" by (simp add: f)
  have twn: "is_spiking ?n \<Longrightarrow> 0 \<le> time_window ?n" by (simp add: f)
  obtain raster where r1: "getitem ?s (- 1) alternating_rng =
        Inr ((raster, 7), \<lambda>i. alternating_rng (i + 2 * 784))"
    and r2: "shape raster = [2, 1, 28, 28]"
    and r3: "\<forall>x \<in> set_nd (body raster). x = 0 \<or> x = 1"
    and r4: "\<forall>t < 2. \<forall>r < 28. \<forall>c < 28.
       \<exists>p. nd_get [0, r, c] (body (data ?s)) = Some p \<and>
           nd_get [t, 0, r, c] (body raster) =
             Some (if alternating_rng (t * 784 + r * 28 + c) < real (unat p) / 255 then 1 else 0)"
    using getitem_spec [OF two_tone_wf h2 tws, of alternating_rng] by (simp add: f) blast
  have e1: "nd_get [1, 0, 3, 0] (body raster) = Some 1"
    using r4 [rule_format, of 1 3 0]
    by (simp add: two_tone_pixels byte_values alternating_rng_def)
  have e2: "nd_get [1, 0, 3, 14] (body raster) = Some 1"
    using r4 [rule_format, of 1 3 14]
    by (simp add: two_tone_pixels byte_values alternating_rng_def)
  have e3: "nd_get [1, 0, 3, 15] (body raster) = Some 0"
    using r4 [rule_format, of 1 3 15]
    by (simp add: two_tone_pixels byte_values alternating_rng_def)
  obtain img where i1: "getitem ?n (- 1) alternating_rng = Inr ((img, 7), alternating_rng)"
    and i2: "shape img = [1, 28, 28]"
    and i3: "\<forall>r < 28. \<forall>c < 28.
       \<exists>p. nd_get [0, r, c] (body (data ?n)) = Some p \<and>
           nd_get [0, r, c] (body img) = Some (real (unat p) / 255)"
    using getitem_spec [OF two_tone_wf h2 twn, of alternating_rng] by (simp add: f) blast
  have j1: "nd_get [0, 3, 0] (body img) = Some 1"
    using i3 [rule_format, of 3 0] by (simp add: two_tone_pixels byte_values)
  have j2: "nd_get [0, 3, 14] (body img) = Some (1 / 5)"
    using i3 [rule_format, of 3 14] by (simp add: two_tone_pixels byte_values)
  show ?thesis
    using two_tone_wf h2 r1 r2 r3 e1 e2 e3 i1 i2 j1 j2 by auto
qed

text \<open>
  The claim as first stated, for every time window, fails for a negative one: the
  dataset is built, nothing checks the window, and \<open>torch.rand\<close> raises RuntimeError when
  an item is read.
\<close>

theorem getitem_negative_time_window:
  "wf_mnist (two_tone_mnist True (- 1)) 1 \<and> norm_dim 1 0 = Inr 0 \<and>
   getitem (two_tone_mnist True (- 1)) 0 alternating_rng = Inl RuntimeError"
proof -
  have "wf_mnist (two_tone_mnist True (- 1)) 1" by (rule two_tone_wf)
  moreover have "norm_dim 1 0 = Inr 0" by (simp add: norm_dim_def)
  moreover have "getitem (two_tone_mnist True (- 1)) 0 alternating_rng = Inl RuntimeError"
    by (simp add: norm_dim_def getitem_def two_tone_mnist_def tensor_getitem_def
        list_getitem_def torch_rand_def)
  ultimately show ?thesis by blast
qed

section \<open>Properties of the CI workflow\<close>


lemma find_jobs:
  "find_job ci ''multitest'' = Some multitest"
  "find_job ci ''documentation'' = Some documentation"
  "find_job ci ''build-and-publish'' = Some build_and_publish"
  by (simp_all add: find_job_def ci_def multitest_def documentation_def build_and_publish_def)

lemma length_ci: "length (jobs ci) = Suc (Suc (Suc 0))"
  by (simp add: ci_def)

lemma job_fields:
  "needs multitest = []" "needs documentation = [''multitest'']"
  "needs build_and_publish = [''documentation'']"
  "matrix_axes documentation = []" "matrix_axes build_and_publish = []"
  "job_id multitest = ''multitest''"
  "steps multitest = [\<lparr>step_name = None, uses = Some ''actions/checkout@v2'', with_args = [], run = [],
          env = []\<rparr>,
         \<lparr>step_name = Some ''Set up Python ${{ matrix.python-version }}'',
          uses = Some ''actions/setup-python@v2'',
          with_args = [(''python-version'', ''${{ matrix.python-version }}'')], run = [],
          env = []\<rparr>,
         install_requirements,
         test_with_pytest]"
  by (simp_all add: multitest_def documentation_def build_and_publish_def)

lemma multitest_succeeded_fuel:
  "succeeded (Suc n) ci ok ''multitest'' =
     list_all (instance_ok ok multitest) (expand (matrix_axes multitest))"
  by (simp add: find_jobs job_fields)

lemma multitest_succeeded:
  "job_succeeded ci ok ''multitest'' =
     list_all (instance_ok ok multitest) (expand (matrix_axes multitest))"
  by (simp only: job_succeeded_def length_ci multitest_succeeded_fuel)

lemma documentation_runs:
  "job_runs ci ok ''documentation'' = job_succeeded ci ok ''multitest''"
  by (simp add: job_runs_def find_jobs job_fields)

lemma documentation_succeeded:
  "job_succeeded ci ok ''documentation'' =
     (job_succeeded ci ok ''multitest'' \<and> instance_ok ok documentation [])"
proof -
  have "job_succeeded ci ok ''documentation'' =
      (succeeded (Suc (Suc 0)) ci ok ''multitest'' \<and> instance_ok ok documentation [])"
    unfolding job_succeeded_def length_ci
    by (subst succeeded.simps(2)) (simp add: find_jobs job_fields del: succeeded.simps(2))
  then show ?thesis by (simp only: multitest_succeeded multitest_succeeded_fuel)
qed

lemma build_and_publish_runs:
  "job_runs ci ok ''build-and-publish'' = job_succeeded ci ok ''documentation''"
  by (simp add: job_runs_def find_jobs job_fields)



lemma less_4: "(\<forall>i < 4. P i) = (P 0 \<and> P (Suc 0) \<and> P (Suc (Suc 0)) \<and> P (Suc (Suc (Suc 0))))"
  for P :: "nat \<Rightarrow> bool"
  by (auto simp: eval_nat_numeral less_Suc_eq)

lemma multitest_instance_ok:
  "instance_ok ok multitest a = (\<forall>i < 4. ok ''multitest'' a i)"
  unfolding less_4 by (auto simp: instance_ok_def job_fields split: prod.splits)









text \<open>
  A failing test surfaces through the exit status of its step alone: the instance
  fails, with it the job, and the jobs that need it do not run.
\<close>

lemma pytest_failure_stops_pipeline:
  assumes "a \<in> set (expand (matrix_axes multitest))" and "\<not> ok ''multitest'' a 3"
  shows "\<not> job_succeeded ci ok ''multitest'' \<and> \<not> job_runs ci ok ''documentation'' \<and>
         \<not> job_runs ci ok ''build-and-publish''"
proof -
  have "(3::nat) < 4" by simp
  then have "\<not> (\<forall>i < 4. ok ''multitest'' a i)" using assms(2) by blast
  then have "\<not> instance_ok ok multitest a"
    using multitest_instance_ok [of ok a] by blast
  then have "\<not> job_succeeded ci ok ''multitest''"
    using assms(1) unfolding multitest_succeeded list_all_iff by blast
  then show ?thesis
    by (simp add: documentation_runs build_and_publish_runs documentation_succeeded)
qed

section \<open>Properties of the tutorials\<close>

text \<open>More fuel does not change a run that has ended.\<close>

lemma exec_more_fuel:
  "exec n fs \<sigma> ss = Some r \<Longrightarrow> exec (Suc n) fs \<sigma> ss = Some r"
proof (induction n fs \<sigma> ss arbitrary: r rule: exec.induct)
  case (1 fuel fs \<sigma>)
  then show ?case by simp
next
  case (2 fuel fs \<sigma> e rest)
  then show ?case by (auto split: option.splits sum.splits prod.splits)
next
  case (3 fuel fs \<sigma> f ps b rest)
  have "exec fuel (fs(f \<mapsto> (ps, b))) \<sigma> rest = Some r" using "3.prems" by simp
  then have "exec (Suc fuel) (fs(f \<mapsto> (ps, b))) \<sigma> rest = Some r" by (rule "3.IH")
  then show ?case by simp
next
  case (4 fs \<sigma> f as rest)
  then show ?case by simp
next
  case (5 n fs \<sigma> f as rest)
  show ?case
  proof (cases "fs f")
    case None
    then show ?thesis using "5.prems" by simp
  next
    case (Some pb)
    obtain ps b where pb: "pb = (ps, b)" by (cases pb)
    obtain rb where rb: "exec n fs (zip ps (map (subst \<sigma>) as)) b = Some rb"
      using "5.prems" Some pb by (auto split: option.splits)
    have rb': "exec (Suc n) fs (zip ps (map (subst \<sigma>) as)) b = Some rb"
      using "5.IH"(1) [OF Some pb [symmetric] rb] .
    show ?thesis
    proof (cases rb)
      case (Inl e)
      then show ?thesis using "5.prems" Some pb rb rb' by auto
    next
      case (Inr p)
      obtain tr fs1 where p: "p = (tr, fs1)" by (cases p)
      obtain rr where rr: "exec (Suc n) fs \<sigma> rest = Some rr"
        using "5.prems" Some pb rb Inr p by (auto split: option.splits)
      have rr': "exec (Suc (Suc n)) fs \<sigma> rest = Some rr"
        using "5.IH"(2) Some pb rb Inr p rr by simp
      show ?thesis using "5.prems" Some pb rb rb' Inr p rr rr' by auto
    qed
  qed
qed

lemma weight_transfer_trace:
  "run_notebook 2 weight_transfer_mnist = Some (Inr
     [Define ''ann'', Other ''class MNIST'', Other ''train_loader, test_loader'',
      Train ''ann'', EvalANN ''ann'', Convert ''ann'' ''sinabs_model'',
      Other ''sinabs_model.spiking_model'', Other ''spike_test_loader'',
      EvalSNN ''sinabs_model'', Other ''img, label = spike_mnist_test[10]'', Plot ''img'',
      Run ''sinabs_model'', Plot ''snn_output''])"
  by (simp add: run_notebook_def weight_transfer_mnist_def subst_def)

lemma LeNet_trace:
  "run_notebook 2 LeNet_5_EngChinese = Some (Inr
     [Other ''import'', Define ''LeNet5'',
      Other ''train_dataloader, test_dataloader, spiking_test_dataloader'',
      Construct ''classifier'', Train ''classifier'', EvalANN ''classifier'',
      Convert ''classifier'' ''net'', EvalSNN ''net''])"
  by (simp add: run_notebook_def LeNet_5_EngChinese_def numeral_2_eq_2 subst_def)

lemma synops_trace:
  "run_notebook 2 synops_tutorial = Some (Inr
     [Define ''ann'', Other ''synops_counter_ann'', Other ''ann(rand_input)'', Define ''SNN'',
      Construct ''snn'', Other ''synops_counter'', Run ''snn'',
      Other ''synops_counter.get_synops()'', Other ''synops_loss''])"
  by (simp add: run_notebook_def synops_tutorial_def subst_def)


text \<open>
  Claim C5 says that in each tutorial the operations occur in the fixed order up to
  plotting. The LeNet tutorial ends with the evaluation of the converted network: it
  plots nothing.
\<close>

theorem LeNet_no_plotting:
  "run_notebook 2 LeNet_5_EngChinese = Some (Inr
     [Other ''import'', Define ''LeNet5'',
      Other ''train_dataloader, test_dataloader, spiking_test_dataloader'',
      Construct ''classifier'', Train ''classifier'', EvalANN ''classifier'',
      Convert ''classifier'' ''net'', EvalSNN ''net'']) \<and>
   \<not> fixed_order
     [Other ''import'', Define ''LeNet5'',
      Other ''train_dataloader, test_dataloader, spiking_test_dataloader'',
      Construct ''classifier'', Train ''classifier'', EvalANN ''classifier'',
      Convert ''classifier'' ''net'', EvalSNN ''net'']"
  by (simp add: LeNet_trace fixed_order_def phases_def List.map_filter_simps)

text \<open>
  Claim C5, amended. The operations of each tutorial occur in the fixed order: all six
  in the weight transfer tutorial, the first five (no plotting) in the LeNet tutorial,
  and model definition alone in the synops tutorial. In each of them conversion never
  precedes the completion of training, and no converted network is evaluated or run
  before its conversion.
\<close>

theorem tutorial_order:
  "(\<exists>tr. run_notebook 2 weight_transfer_mnist = Some (Inr tr) \<and> fixed_order tr \<and>
      trained_before_conversion [] False tr \<and> never_before_conversion tr) \<and>
   (\<exists>tr. run_notebook 2 LeNet_5_EngChinese = Some (Inr tr) \<and>
      phases tr = [ModelDefinition, Training, Evaluation, Conversion, SpikingEvaluation] \<and>
      trained_before_conversion [] False tr \<and> never_before_conversion tr) \<and>
   (\<exists>tr. run_notebook 2 synops_tutorial = Some (Inr tr) \<and> phases tr = [ModelDefinition] \<and>
      trained_before_conversion [] False tr \<and> never_before_conversion tr)"
  by (simp add: weight_transfer_trace LeNet_trace synops_trace fixed_order_def phases_def
      conversions_def List.map_filter_simps)

text \<open>
  Claim C9 says that each tutorial converts through one call of \<open>from_model\<close>. The
  synops tutorial calls no conversion, and runs the spiking network it has built
  itself.
\<close>

theorem synops_no_conversion:
  "run_notebook 2 synops_tutorial = Some (Inr
     [Define ''ann'', Other ''synops_counter_ann'', Other ''ann(rand_input)'', Define ''SNN'',
      Construct ''snn'', Other ''synops_counter'', Run ''snn'',
      Other ''synops_counter.get_synops()'', Other ''synops_loss'']) \<and>
   length (conversions
     [Define ''ann'', Other ''synops_counter_ann'', Other ''ann(rand_input)'', Define ''SNN'',
      Construct ''snn'', Other ''synops_counter'', Run ''snn'',
      Other ''synops_counter.get_synops()'', Other ''synops_loss'']) \<noteq> 1 \<and>
   Run ''snn'' \<in> set
     [Define ''ann'', Other ''synops_counter_ann'', Other ''ann(rand_input)'', Define ''SNN'',
      Construct ''snn'', Other ''synops_counter'', Run ''snn'',
      Other ''synops_counter.get_synops()'', Other ''synops_loss'']"
  by (simp add: synops_trace conversions_def List.map_filter_simps)

text \<open>
  Claim C9, amended. The weight transfer tutorial and the LeNet tutorial each convert
  through exactly one call of \<open>from_model\<close>, and every later use of a spiking network
  in them goes through the object that call returned; the synops tutorial converts
  nothing.
\<close>

theorem conversion_once:
  "(\<exists>tr. run_notebook 2 weight_transfer_mnist = Some (Inr tr) \<and>
      conversions tr = [(''ann'', ''sinabs_model'')] \<and> through_converted None tr) \<and>
   (\<exists>tr. run_notebook 2 LeNet_5_EngChinese = Some (Inr tr) \<and>
      conversions tr = [(''classifier'', ''net'')] \<and> through_converted None tr) \<and>
   (\<exists>tr. run_notebook 2 synops_tutorial = Some (Inr tr) \<and> conversions tr = [])"
  by (simp add: weight_transfer_trace LeNet_trace synops_trace conversions_def
      List.map_filter_simps)

end
